theory Spec2Isabelle
  imports Complex_Main "HOL-Library.Sublist" "HOL-Library.Log_Nat"
begin

chapter \<open>Adept AI project planner: the front end's decision logic\<close>

text \<open>
  The repository holds the React front end of the planner (pages, components and the
  API types). A definition below embeds one function or constant of those files and is
  named after it, unless its text says that it is modelled from the specification: the
  back end that answers the front end's requests is not in the repository.
  JavaScript values are modelled as follows:
  \<^item> a string is a \<open>string\<close>; its characters stand for code units below 256;
  \<^item> a finite number held in a field is the \<open>rat\<close> it stands for; the arithmetic of the
    progress bar is that of IEEE 754 binary64, with its rounding, Infinity and NaN
    (type \<open>float64\<close>), and \<open>parseInt\<close> returns an integer or NaN (type \<open>js_number\<close>);
  \<^item> \<open>null\<close> and \<open>undefined\<close> in an optional field are \<open>None\<close>;
  \<^item> a timestamp string is the time value (milliseconds) that \<open>new Date\<close> reads from it.
\<close>

section \<open>Types of the API (frontend/src/lib/types.ts)\<close>

datatype ProjectRole = Owner | Editor | Viewer

datatype TaskPriority = Low | Medium | High

datatype CreatedBy = By_ai | By_user

text \<open>
  \<open>Task\<close>: the field \<open>status\<close> is kept as the string the server sent, because the
  statistics below have a branch for any value that is neither \<open>done\<close> nor
  \<open>in_progress\<close>. The fields \<open>id\<close>, \<open>created_at\<close> and \<open>updated_at\<close> are written
  \<open>task_id\<close>, \<open>task_created_at\<close> and \<open>task_updated_at\<close>.
\<close>

record Task =
  task_id :: string
  project_id :: string
  title :: string
  description :: "string option"
  priority :: TaskPriority
  status :: string
  effort_estimate :: "rat option"
  ai_generated :: bool
  ai_priority_suggestion :: "TaskPriority option"
  ai_effort_suggestion :: "rat option"
  created_by :: CreatedBy
  task_created_at :: string
  task_updated_at :: string

section \<open>Role permissions (components/PermissionsTable.tsx, pages/InvitationPage.tsx)\<close>

record Permission =
  name :: string
  owner :: bool
  editor :: bool
  viewer :: bool

text \<open>The constant array \<open>permissions\<close> of \<open>PermissionsTable\<close>, row by row.\<close>

definition permissions :: "Permission list" where
  "permissions =
    [\<lparr>name = ''View Tasks'', owner = True, editor = True, viewer = True\<rparr>,
     \<lparr>name = ''Create Tasks'', owner = True, editor = True, viewer = False\<rparr>,
     \<lparr>name = ''Edit Tasks'', owner = True, editor = True, viewer = False\<rparr>,
     \<lparr>name = ''Delete Tasks'', owner = True, editor = True, viewer = False\<rparr>,
     \<lparr>name = ''Manage Team'', owner = True, editor = False, viewer = False\<rparr>,
     \<lparr>name = ''Project Settings'', owner = True, editor = False, viewer = False\<rparr>]"

text \<open>
  The objects \<open>permissions\<close> and \<open>cannotDo\<close> of \<open>InvitationPage\<close>, keyed by role
  (the first is written \<open>invitation_permissions\<close> here: the table above has the name).
\<close>

primrec invitation_permissions :: "ProjectRole \<Rightarrow> string list" where
  "invitation_permissions Owner =
     [''View all tasks'', ''Create new tasks'', ''Edit and delete tasks'',
      ''Manage team members'', ''Project settings'']"
| "invitation_permissions Editor =
     [''View all tasks'', ''Create new tasks'', ''Edit and delete tasks'']"
| "invitation_permissions Viewer = [''View all tasks'']"

primrec cannotDo :: "ProjectRole \<Rightarrow> string list" where
  "cannotDo Owner = []"
| "cannotDo Editor = [''Manage team members'', ''Project settings'']"
| "cannotDo Viewer =
     [''Create new tasks'', ''Edit or delete tasks'', ''Manage team members'',
      ''Project settings'']"

section \<open>Dashboard statistics (pages/Dashboard.tsx, fetchTaskStats)\<close>

record TaskStats =
  completed :: nat
  in_progress :: nat
  todo :: nat

text \<open>The callback of \<open>allTasks.reduce\<close>: one counter is incremented per task.\<close>

definition count_task :: "TaskStats \<Rightarrow> Task \<Rightarrow> TaskStats" where
  "count_task acc task =
     (if status task = ''done'' then acc\<lparr>completed := completed acc + 1\<rparr>
      else if status task = ''in_progress'' then acc\<lparr>in_progress := in_progress acc + 1\<rparr>
      else acc\<lparr>todo := todo acc + 1\<rparr>)"

definition stats :: "Task list \<Rightarrow> TaskStats" where
  "stats allTasks = foldl count_task \<lparr>completed = 0, in_progress = 0, todo = 0\<rparr> allTasks"

section \<open>Arithmetic of JavaScript numbers (IEEE 754 binary64)\<close>

text \<open>
  The operators \<open>+\<close>, \<open>*\<close>, \<open>/\<close> and \<open>>\<close> and \<open>Math.round\<close> work on binary64 values:
  the result of an operation is the exact result rounded to the nearest value of the
  format, a tie going to the even significand, and a result too large for the format
  is an infinity. A finite value is kept as the rational it stands for. The two zeros
  are one value here: they differ only as divisors and under \<open>Object.is\<close>, the sums
  of the page start from \<open>+0\<close> and never reach \<open>-0\<close>, and the page divides only by a
  number that is greater than 0.
\<close>

datatype float64 = Finite rat | Infinity | Minus_Infinity | Not_a_Number

text \<open>
  The binary exponent of a positive rational: \<open>2 powi flog2 x \<le> x < 2 powi (flog2 x + 1)\<close>
  (lemma \<open>flog2_bounds\<close>). The difference of the bit lengths of numerator and
  denominator is that exponent or one more.
\<close>

definition flog2 :: "rat \<Rightarrow> int" where
  "flog2 x =
     (case quotient_of x of
        (p, q) \<Rightarrow> let k = bitlen p - bitlen q in if 2 powi k \<le> x then k else k - 1)"

text \<open>The nearest integer, a tie going to the even one.\<close>

definition round_half_even :: "rat \<Rightarrow> int" where
  "round_half_even y =
     (let n = \<lfloor>y\<rfloor>; r = y - of_int n
      in if r < 1 / 2 then n else if 1 / 2 < r then n + 1 else if even n then n else n + 1)"

text \<open>
  The value of the format nearest to a positive rational, the exponent range taken as
  unbounded above: a significand of 53 bits, so the value is a multiple of
  \<open>2 powi (flog2 x - 52)\<close>, and of \<open>2 powi (- 1074)\<close>, the least subnormal, below the
  normal range.
\<close>

definition nearest :: "rat \<Rightarrow> rat" where
  "nearest x =
     (let e = max (flog2 x - 52) (- 1074)
      in of_int (round_half_even (x / 2 powi e)) * 2 powi e)"

text \<open>
  The number for an exact result: rounding, then overflow to an infinity when the
  rounded magnitude reaches \<open>2 ^ 1024\<close>.
\<close>

definition to_double :: "rat \<Rightarrow> float64" where
  "to_double x =
     (if x = 0 then Finite 0
      else if 2 ^ 1024 \<le> nearest \<bar>x\<bar> then (if 0 < x then Infinity else Minus_Infinity)
      else Finite (if 0 < x then nearest x else - nearest (- x)))"

text \<open>A rational that is a finite value of the format.\<close>

definition is_double :: "rat \<Rightarrow> bool" where
  "is_double x \<longleftrightarrow> to_double x = Finite x"

text \<open>The operator \<open>+\<close>.\<close>

fun add64 :: "float64 \<Rightarrow> float64 \<Rightarrow> float64" where
  "add64 (Finite a) (Finite b) = to_double (a + b)"
| "add64 Not_a_Number y = Not_a_Number"
| "add64 x Not_a_Number = Not_a_Number"
| "add64 Infinity Minus_Infinity = Not_a_Number"
| "add64 Minus_Infinity Infinity = Not_a_Number"
| "add64 Infinity y = Infinity"
| "add64 x Infinity = Infinity"
| "add64 Minus_Infinity y = Minus_Infinity"
| "add64 x Minus_Infinity = Minus_Infinity"

fun is_negative :: "float64 \<Rightarrow> bool" where
  "is_negative (Finite a) \<longleftrightarrow> a < 0"
| "is_negative Minus_Infinity \<longleftrightarrow> True"
| "is_negative x \<longleftrightarrow> False"

definition signed_infinity :: "bool \<Rightarrow> float64" where
  "signed_infinity negative = (if negative then Minus_Infinity else Infinity)"

text \<open>The operator \<open>*\<close>: an infinity times zero is NaN.\<close>

fun mul64 :: "float64 \<Rightarrow> float64 \<Rightarrow> float64" where
  "mul64 (Finite a) (Finite b) = to_double (a * b)"
| "mul64 Not_a_Number y = Not_a_Number"
| "mul64 x Not_a_Number = Not_a_Number"
| "mul64 x y =
     (if x = Finite 0 \<or> y = Finite 0 then Not_a_Number
      else signed_infinity (is_negative x \<noteq> is_negative y))"

text \<open>
  The operator \<open>/\<close>: zero by zero and an infinity by an infinity are NaN, a finite
  number by an infinity is zero. A zero divisor is taken as \<open>+0\<close>.
\<close>

fun div64 :: "float64 \<Rightarrow> float64 \<Rightarrow> float64" where
  "div64 (Finite a) (Finite b) =
     (if b \<noteq> 0 then to_double (a / b)
      else if a = 0 then Not_a_Number else signed_infinity (a < 0))"
| "div64 Not_a_Number y = Not_a_Number"
| "div64 x Not_a_Number = Not_a_Number"
| "div64 (Finite a) y = Finite 0"
| "div64 x (Finite b) = signed_infinity (is_negative x \<noteq> (b < 0))"
| "div64 x y = Not_a_Number"

text \<open>The operators \<open>>\<close> and \<open><=\<close>: a comparison with NaN is false.\<close>

fun greater64 :: "float64 \<Rightarrow> float64 \<Rightarrow> bool" where
  "greater64 (Finite a) (Finite b) \<longleftrightarrow> b < a"
| "greater64 Not_a_Number y \<longleftrightarrow> False"
| "greater64 x Not_a_Number \<longleftrightarrow> False"
| "greater64 x Infinity \<longleftrightarrow> False"
| "greater64 Minus_Infinity y \<longleftrightarrow> False"
| "greater64 x y \<longleftrightarrow> True"

fun less_eq64 :: "float64 \<Rightarrow> float64 \<Rightarrow> bool" where
  "less_eq64 (Finite a) (Finite b) \<longleftrightarrow> a \<le> b"
| "less_eq64 Not_a_Number y \<longleftrightarrow> False"
| "less_eq64 x Not_a_Number \<longleftrightarrow> False"
| "less_eq64 x Infinity \<longleftrightarrow> True"
| "less_eq64 Minus_Infinity y \<longleftrightarrow> True"
| "less_eq64 x y \<longleftrightarrow> False"

text \<open>
  \<open>Math.round\<close>: the nearest integer, a tie going up; an infinity and NaN are returned
  as they are. The integer nearest to a value of the format is a value of the format.
\<close>

fun Math_round :: "float64 \<Rightarrow> float64" where
  "Math_round (Finite x) = Finite (of_int \<lfloor>x + 1 / 2\<rfloor>)"
| "Math_round x = x"

text \<open>What a sum of numbers that are not negative can be: such a number, or Infinity.\<close>

definition nonneg_double :: "float64 \<Rightarrow> bool" where
  "nonneg_double v \<longleftrightarrow>
     (case v of Finite a \<Rightarrow> 0 \<le> a \<and> is_double a | Infinity \<Rightarrow> True
      | Minus_Infinity \<Rightarrow> False | Not_a_Number \<Rightarrow> False)"

section \<open>Project progress (pages/ProjectDetail.tsx)\<close>

text \<open>
  \<open>t.effort_estimate || 0\<close>: \<open>null\<close> counts as 0 (and 0 is 0 either way). The field
  holds a number read from JSON, which is finite.
\<close>

definition effort_or_zero :: "rat option \<Rightarrow> rat" where
  "effort_or_zero e = (case e of None \<Rightarrow> 0 | Some h \<Rightarrow> h)"

definition doneTasks :: "Task list \<Rightarrow> Task list" where
  "doneTasks tasks = filter (\<lambda>t. status t = ''done'') tasks"

text \<open>The two \<open>reduce\<close> calls: a sum from the left, starting at 0, each step rounded.\<close>

definition totalEffort :: "Task list \<Rightarrow> float64" where
  "totalEffort tasks =
     foldl (\<lambda>sum t. add64 sum (Finite (effort_or_zero (effort_estimate t)))) (Finite 0) tasks"

definition completedEffort :: "Task list \<Rightarrow> float64" where
  "completedEffort tasks =
     foldl (\<lambda>sum t. add64 sum (Finite (effort_or_zero (effort_estimate t)))) (Finite 0)
       (doneTasks tasks)"

text \<open>
  \<open>totalEffort > 0 ? Math.round((completedEffort / totalEffort) * 100) : 0\<close>: the
  quotient is rounded, and its product with 100 is rounded again, before \<open>Math.round\<close>.
\<close>

definition progressPercent :: "Task list \<Rightarrow> float64" where
  "progressPercent tasks =
     (if greater64 (totalEffort tasks) (Finite 0)
      then Math_round (mul64 (div64 (completedEffort tasks) (totalEffort tasks)) (Finite 100))
      else Finite 0)"

text \<open>Sample data for the closed instances below.\<close>

definition sample_task :: "string \<Rightarrow> string \<Rightarrow> rat option \<Rightarrow> Task" where
  "sample_task i st e =
     \<lparr>task_id = i, project_id = ''p1'', title = ''Write report'', description = None,
      priority = Medium, status = st, effort_estimate = e, ai_generated = False,
      ai_priority_suggestion = None, ai_effort_suggestion = None, created_by = By_user,
      task_created_at = ''2025-01-01T00:00:00Z'', task_updated_at = ''2025-01-01T00:00:00Z''\<rparr>"

definition sample_tasks :: "Task list" where
  "sample_tasks =
     [sample_task ''t1'' ''done'' (Some 3), sample_task ''t2'' ''in_progress'' (Some 1),
      sample_task ''t3'' ''todo'' None, sample_task ''t4'' ''blocked'' (Some 2)]"

text \<open>
  29 hours done of 200: the exact percentage is 14.5, and the page computes
  \<open>29 / 200 * 100\<close> as 14.499999999999998.
\<close>

definition rounding_tasks :: "Task list" where
  "rounding_tasks =
     [sample_task ''t1'' ''done'' (Some 29), sample_task ''t2'' ''todo'' (Some 171)]"

text \<open>
  Two finished tasks with the estimate \<open>2 ** 1023\<close>, which JSON writes as
  \<open>8.98846567431158e307\<close>.
\<close>

definition huge_tasks :: "Task list" where
  "huge_tasks =
     [sample_task ''t1'' ''done'' (Some (2 ^ 1023)), sample_task ''t2'' ''done'' (Some (2 ^ 1023))]"

section \<open>Strings and numbers of JavaScript\<close>

text \<open>
  \<open>String.prototype.trim\<close> removes white space and line terminators from both ends.
  Among the code units below 256 these are TAB, LF, VT, FF, CR, SPACE and NBSP.
\<close>

definition isWhiteSpace :: "char \<Rightarrow> bool" where
  "isWhiteSpace c \<longleftrightarrow> (of_char c :: nat) \<in> {9, 10, 11, 12, 13, 32, 160}"

definition trim :: "string \<Rightarrow> string" where
  "trim s = rev (dropWhile isWhiteSpace (rev (dropWhile isWhiteSpace s)))"

text \<open>A number as \<open>parseInt\<close> returns it and as \<open>z.number()\<close> receives it.\<close>

datatype js_number = NaN | Number rat

text \<open>The value of a digit character: \<open>0\<close> to \<open>9\<close>, then the letters in either case.\<close>

definition digitValue :: "char \<Rightarrow> nat option" where
  "digitValue c =
     (let n = (of_char c :: nat) in
      if 48 \<le> n \<and> n \<le> 57 then Some (n - 48)
      else if 97 \<le> n \<and> n \<le> 122 then Some (n - 87)
      else if 65 \<le> n \<and> n \<le> 90 then Some (n - 55)
      else None)"

definition isDigit :: "nat \<Rightarrow> char \<Rightarrow> bool" where
  "isDigit R c = (case digitValue c of None \<Rightarrow> False | Some d \<Rightarrow> d < R)"

definition digitsValue :: "nat \<Rightarrow> string \<Rightarrow> nat" where
  "digitsValue R Z =
     foldl (\<lambda>n c. case digitValue c of None \<Rightarrow> n | Some d \<Rightarrow> n * R + d) 0 Z"

text \<open>
  \<open>parseInt(string)\<close> with no radix, step by step as ECMAScript defines it: leading
  white space is skipped, a sign is read, a prefix \<open>0x\<close> or \<open>0X\<close> selects radix 16
  (radix 10 otherwise), and the longest run of digits of that radix is the value; no
  digit gives NaN. The value is exact here (a double rounds it above 2^53).
\<close>

definition parseInt :: "string \<Rightarrow> js_number" where
  "parseInt string =
     (let S = dropWhile isWhiteSpace string;
          sign = (if take 1 S = ''-'' then - 1 else 1 :: int);
          S1 = (if take 1 S = ''+'' \<or> take 1 S = ''-'' then drop 1 S else S);
          hex = (take 2 S1 = ''0x'' \<or> take 2 S1 = ''0X'');
          R = (if hex then 16 else 10);
          S2 = (if hex then drop 2 S1 else S1);
          Z = takeWhile (isDigit R) S2
      in if Z = [] then NaN else Number (of_int (sign * int (digitsValue R Z))))"

section \<open>Creating a task by hand (the component CreateTaskDialog)\<close>

text \<open>
  The body of a request that creates a task: the object \<open>handleSubmit\<close> posts to
  \<open>/projects/{id}/tasks\<close> and each element of the array \<open>handleSave\<close> posts to
  \<open>/projects/{id}/tasks/bulk\<close>. The fields carry the prefix \<open>new_\<close>: the names without
  it are the fields of \<open>Task\<close>. A field the object leaves out is \<open>None\<close>.
\<close>

record TaskCreate =
  new_title :: string
  new_description :: "string option"
  new_priority :: TaskPriority
  new_effort_estimate :: "rat option"
  new_ai_generated :: bool
  new_ai_priority_suggestion :: "TaskPriority option"
  new_ai_effort_suggestion :: "rat option"
  new_created_by :: CreatedBy

text \<open>
  \<open>taskSchema.safeParse\<close>: the issues found, each the field's name and the message,
  in the order of the schema's keys; the parse succeeds when there is none. A string is
  trimmed before its length is checked. \<open>effort_estimate\<close> is optional: \<open>None\<close> is
  \<open>undefined\<close>. \<open>z.number()\<close> refuses NaN. The three messages of the number checks are
  the defaults of the validation library (zod 3).
\<close>

definition taskSchema :: "string \<Rightarrow> string \<Rightarrow> js_number option \<Rightarrow> (string \<times> string) list" where
  "taskSchema title_in description_in effort_in =
     (if length (trim title_in) < 1 then [(''title'', ''Title is required'')] else [])
     @ (if length (trim title_in) > 200 then [(''title'', ''Title too long'')] else [])
     @ (if length (trim description_in) > 1000
        then [(''description'', ''Description too long'')] else [])
     @ (case effort_in of
          None \<Rightarrow> []
        | Some NaN \<Rightarrow> [(''effort_estimate'', ''Expected number, received nan'')]
        | Some (Number n) \<Rightarrow>
            (if n < 0
             then [(''effort_estimate'', ''Number must be greater than or equal to 0'')]
             else [])
            @ (if n > 1000
               then [(''effort_estimate'', ''Number must be less than or equal to 1000'')]
               else []))"

text \<open>\<open>effort || null\<close>: \<open>undefined\<close>, NaN and 0 all become \<open>null\<close>.\<close>

definition effort_or_null :: "js_number option \<Rightarrow> rat option" where
  "effort_or_null effort =
     (case effort of
        None \<Rightarrow> None
      | Some NaN \<Rightarrow> None
      | Some (Number n) \<Rightarrow> if n = 0 then None else Some n)"

text \<open>
  \<open>handleSubmit\<close>, from the four inputs of the form; \<open>effort\<close> is its constant of
  that name: the effort field parsed, or \<open>undefined\<close> when the field is empty. \<open>Inl\<close>
  is the early return: the field errors are shown and no request is sent. \<open>Inr\<close> is
  the body of the one request that is sent.
\<close>

definition effort :: "string \<Rightarrow> js_number option" where
  "effort effortEstimate =
     (if effortEstimate \<noteq> [] then Some (parseInt effortEstimate) else None)"

definition handleSubmit ::
  "string \<Rightarrow> string \<Rightarrow> TaskPriority \<Rightarrow> string \<Rightarrow> (string \<times> string) list + TaskCreate" where
  "handleSubmit title_in description_in priority_in effortEstimate =
     (let fieldErrors = taskSchema title_in description_in (effort effortEstimate)
      in if fieldErrors \<noteq> [] then Inl fieldErrors
         else Inr \<lparr>new_title = trim title_in,
                   new_description =
                     (if trim description_in = [] then None else Some (trim description_in)),
                   new_priority = priority_in,
                   new_effort_estimate = effort_or_null (effort effortEstimate),
                   new_ai_generated = False,
                   new_ai_priority_suggestion = None,
                   new_ai_effort_suggestion = None,
                   new_created_by = By_user\<rparr>)"

section \<open>Requests to the server (lib/api.ts)\<close>

text \<open>
  A request either resolves with data or is rejected with an \<open>Error\<close> whose message
  the response interceptor has set; \<open>handleApiError\<close> returns that message. A request
  that changes the server is a function from the server's state to the new state and the
  response. The front end's handlers take such functions as arguments: what they do
  is then stated for every server.
\<close>

datatype 'a response = Rejected string | Resolved 'a

datatype toast = Toast_error string | Toast_success

section \<open>Saving generated tasks (pages/AIGeneratePage.tsx)\<close>

text \<open>
  \<open>AISuggestion\<close>. The prefix \<open>s_\<close> marks the fields that share their names with
  \<open>Task\<close>. \<open>modified\<close> is optional in the source and set by every function that builds
  a suggestion.
\<close>

record AISuggestion =
  suggestion_id :: string
  s_title :: string
  s_description :: string
  s_priority :: TaskPriority
  priority_reasoning :: "string option"
  s_effort_estimate :: rat
  effort_confidence :: "string option"
  effort_reasoning :: "string option"
  is_editable :: bool
  source :: string
  modified :: bool

text \<open>
  \<open>Partial<AISuggestion>\<close>, with the fields the page's editing controls set: the
  priority selector and the effort input call \<open>handleUpdate\<close>; the title and the
  description inputs do the same update inline.
\<close>

record AISuggestion_updates =
  upd_title :: "string option"
  upd_description :: "string option"
  upd_priority :: "TaskPriority option"
  upd_effort_estimate :: "rat option"

text \<open>The object spread \<open>{ ...s, ...updates, modified: true }\<close>.\<close>

definition spread_updates :: "AISuggestion \<Rightarrow> AISuggestion_updates \<Rightarrow> AISuggestion" where
  "spread_updates s updates =
     s\<lparr>s_title := (case upd_title updates of None \<Rightarrow> s_title s | Some v \<Rightarrow> v),
       s_description := (case upd_description updates of None \<Rightarrow> s_description s | Some v \<Rightarrow> v),
       s_priority := (case upd_priority updates of None \<Rightarrow> s_priority s | Some v \<Rightarrow> v),
       s_effort_estimate :=
         (case upd_effort_estimate updates of None \<Rightarrow> s_effort_estimate s | Some v \<Rightarrow> v),
       modified := True\<rparr>"

definition handleUpdate ::
  "AISuggestion list \<Rightarrow> string \<Rightarrow> AISuggestion_updates \<Rightarrow> AISuggestion list" where
  "handleUpdate suggestions ident updates =
     map (\<lambda>s. if suggestion_id s = ident then spread_updates s updates else s) suggestions"

text \<open>\<open>handleAddManual\<close>; the new identifier (\<open>manual-\<close> and the clock) is an argument.\<close>

definition handleAddManual :: "AISuggestion list \<Rightarrow> string \<Rightarrow> AISuggestion list" where
  "handleAddManual suggestions new_id =
     suggestions @
     [\<lparr>suggestion_id = new_id, s_title = '''', s_description = '''', s_priority = Medium,
       priority_reasoning = None, s_effort_estimate = 4, effort_confidence = None,
       effort_reasoning = None, is_editable = True, source = ''user'', modified = False\<rparr>]"

text \<open>
  \<open>handleSave\<close>. \<open>has_title\<close> is the callback of \<open>filter\<close> (a suggestion whose trimmed
  title is empty is left out), \<open>toTaskCreate\<close> the callback of \<open>map\<close>, and
  \<open>tasksToCreate\<close> the array posted as \<open>tasks\<close>.
\<close>

definition has_title :: "AISuggestion \<Rightarrow> bool" where
  "has_title s \<longleftrightarrow> trim (s_title s) \<noteq> []"

definition toTaskCreate :: "AISuggestion \<Rightarrow> TaskCreate" where
  "toTaskCreate s =
     \<lparr>new_title = trim (s_title s),
      new_description = (if trim (s_description s) = [] then None else Some (trim (s_description s))),
      new_priority = s_priority s,
      new_effort_estimate = Some (s_effort_estimate s),
      new_ai_generated = (source s = ''gemini''),
      new_ai_priority_suggestion = (if source s = ''gemini'' then Some (s_priority s) else None),
      new_ai_effort_suggestion =
        (if source s = ''gemini'' then Some (s_effort_estimate s) else None),
      new_created_by = (if source s = ''gemini'' then By_ai else By_user)\<rparr>"

definition tasksToCreate :: "AISuggestion list \<Rightarrow> TaskCreate list" where
  "tasksToCreate suggestions = map toTaskCreate (filter has_title suggestions)"

text \<open>
  The request is sent once, with the whole array; a rejection is caught and shown.
  \<open>post\<close> is the server's \<open>POST /projects/{id}/tasks/bulk\<close>.
\<close>

definition handleSave ::
  "('srv \<Rightarrow> string \<Rightarrow> TaskCreate list \<Rightarrow> 'srv \<times> unit response)
     \<Rightarrow> string \<Rightarrow> AISuggestion list \<Rightarrow> 'srv \<Rightarrow> 'srv \<times> toast" where
  "handleSave post projectId suggestions srv =
     (case post srv projectId (tasksToCreate suggestions) of
        (srv', Resolved _) \<Rightarrow> (srv', Toast_success)
      | (srv', Rejected message) \<Rightarrow> (srv', Toast_error message))"

section \<open>The badge of a task card (components/TaskCard.tsx)\<close>

text \<open>\<open>wasModified\<close>: \<open>!==\<close> between a value and a value that may be \<open>null\<close>.\<close>

definition wasModified :: "Task \<Rightarrow> bool" where
  "wasModified task \<longleftrightarrow>
     ai_generated task \<and>
     (Some (priority task) \<noteq> ai_priority_suggestion task
      \<or> effort_estimate task \<noteq> ai_effort_suggestion task)"

section \<open>The server's task store\<close>

text \<open>
  The back end is not among the repository's files. What the properties below need of
  it is modelled from the specification, definition by definition.
\<close>

text \<open>
  Modelled from the spec: the kinds of error of the missing back end, section 7
  ("Taxonomy: ValidationError, Unauthorized, Forbidden, NotFound, Conflict, Expired,
  AIServiceError"), and Gone of section 4.3.
\<close>

datatype error_kind =
  ValidationError | Unauthorized | Forbidden | NotFound | Conflict | Gone | Expired
  | AIServiceError

text \<open>
  Modelled from the spec: the message of a rejected request of the missing back end,
  section 6 ("errors surface as HTTP status + machine-readable error kind"): the name
  of the kind.
\<close>

primrec detail :: "error_kind \<Rightarrow> string" where
  "detail ValidationError = ''ValidationError''"
| "detail Unauthorized = ''Unauthorized''"
| "detail Forbidden = ''Forbidden''"
| "detail NotFound = ''NotFound''"
| "detail Conflict = ''Conflict''"
| "detail Gone = ''Gone''"
| "detail Expired = ''Expired''"
| "detail AIServiceError = ''AIServiceError''"

text \<open>
  Modelled from the spec: the task table of the missing back end. The store is the
  list of rows in the order they were inserted, each the project and the submitted
  fields; the columns the database fills in (identifier, times) are left out.
\<close>

type_synonym task_store = "(string \<times> TaskCreate) list"

text \<open>
  Modelled from the spec: the validation of one item by the missing back end, section
  4.2: "title required 1-200 chars; effort estimate if present must be >= 0".
\<close>

definition valid_fields :: "TaskCreate \<Rightarrow> bool" where
  "valid_fields f \<longleftrightarrow>
     1 \<le> length (new_title f) \<and> length (new_title f) \<le> 200 \<and>
     (case new_effort_estimate f of None \<Rightarrow> True | Some e \<Rightarrow> 0 \<le> e)"

text \<open>
  Modelled from the spec: \<open>createTask\<close> of the missing back end, section 4.2: the
  item is validated and, if valid, stored. The check of the caller's role (section 4.1)
  is not part of this model.
\<close>

definition createTask :: "task_store \<Rightarrow> string \<Rightarrow> TaskCreate \<Rightarrow> error_kind + task_store" where
  "createTask store pid f =
     (if valid_fields f then Inr (store @ [(pid, f)]) else Inl ValidationError)"

text \<open>
  Modelled from the spec: the loop of \<open>bulkCreateTasks\<close> in the missing back end,
  sections 4.2 and 5: "same per-item validation as createTask", the tasks "must be
  persisted in the order supplied". The items are created one after the other, and the
  first failure ends the loop.
\<close>

fun create_each :: "task_store \<Rightarrow> string \<Rightarrow> TaskCreate list \<Rightarrow> error_kind + task_store" where
  "create_each store pid [] = Inr store"
| "create_each store pid (f # fs) =
     (case createTask store pid f of
        Inl e \<Rightarrow> Inl e
      | Inr store' \<Rightarrow> create_each store' pid fs)"

text \<open>
  Modelled from the spec: \<open>bulkCreateTasks\<close> of the missing back end, sections 4.2 and
  5: "reject the whole batch atomically if any item fails validation"; "all mutations
  are expected to be wrapped in a single transaction per API call". A failure rolls
  the transaction back: the store is the one before the call.
\<close>

definition bulkCreateTasks ::
  "task_store \<Rightarrow> string \<Rightarrow> TaskCreate list \<Rightarrow> task_store \<times> unit response" where
  "bulkCreateTasks store pid fs =
     (case create_each store pid fs of
        Inl e \<Rightarrow> (store, Rejected (detail e))
      | Inr store' \<Rightarrow> (store', Resolved ()))"

text \<open>
  Modelled from the spec: the \<open>Task\<close> the missing back end returns for a stored row,
  section 3: the fields as submitted, the provenance and the suggestion fields
  included, and the status \<open>todo\<close>. The identifier and the time are those the database
  filled in.
\<close>

definition stored_task :: "string \<Rightarrow> string \<Rightarrow> string \<times> TaskCreate \<Rightarrow> Task" where
  "stored_task ident time row =
     \<lparr>task_id = ident, project_id = fst row, title = new_title (snd row),
      description = new_description (snd row), priority = new_priority (snd row),
      status = ''todo'', effort_estimate = new_effort_estimate (snd row),
      ai_generated = new_ai_generated (snd row),
      ai_priority_suggestion = new_ai_priority_suggestion (snd row),
      ai_effort_suggestion = new_ai_effort_suggestion (snd row),
      created_by = new_created_by (snd row),
      task_created_at = time, task_updated_at = time\<rparr>"

text \<open>Sample suggestions: two from the AI, one added by hand and left without a title.\<close>

definition suggestion_a :: AISuggestion where
  "suggestion_a =
     \<lparr>suggestion_id = ''s1'', s_title = '' Design schema '', s_description = ''Tables'',
      s_priority = High, priority_reasoning = Some ''Blocks everything'',
      s_effort_estimate = 8, effort_confidence = Some ''high'',
      effort_reasoning = Some ''Standard work'', is_editable = True, source = ''gemini'',
      modified = False\<rparr>"

definition suggestion_b :: AISuggestion where
  "suggestion_b =
     \<lparr>suggestion_id = ''s2'', s_title = ''Write API'', s_description = ''  '',
      s_priority = Medium, priority_reasoning = None,
      s_effort_estimate = 5, effort_confidence = None,
      effort_reasoning = None, is_editable = True, source = ''gemini'',
      modified = False\<rparr>"

definition sample_suggestions :: "AISuggestion list" where
  "sample_suggestions = handleAddManual [suggestion_a] ''manual-1'' @ [suggestion_b]"

text \<open>The priority selector of a suggestion set to \<open>low\<close>: the argument of \<open>handleUpdate\<close>.\<close>

definition priority_edit :: AISuggestion_updates where
  "priority_edit =
     \<lparr>upd_title = None, upd_description = None, upd_priority = Some Low,
      upd_effort_estimate = None\<rparr>"

section \<open>Accepting an invitation (pages/InvitationPage.tsx)\<close>

text \<open>
  \<open>User\<close> of \<open>types.ts\<close> (\<open>id\<close> and \<open>created_at\<close> are written \<open>uid\<close> and
  \<open>registered_at\<close>), the invitation as the page reads it from the response (the fields of
  \<open>ProjectInvitation\<close>, and \<open>project_id\<close> and \<open>accepted_at\<close>, which the page uses as
  well; \<open>id\<close>, \<open>project_id\<close>, \<open>role\<close> and \<open>created_at\<close> carry the prefix \<open>inv_\<close>), and
  \<open>Project\<close>.
\<close>

record User =
  uid :: string
  email :: string
  username :: "string option"
  is_active :: bool
  registered_at :: string

record Invitation =
  inv_id :: string
  inv_project_id :: string
  invited_email :: string
  inv_role :: ProjectRole
  inv_created_at :: int
  expires_at :: int
  accepted_at :: "int option"
  invitation_token :: string

record Project =
  proj_id :: string
  proj_user_id :: string
  proj_title :: string
  proj_description :: "string option"
  proj_created_at :: string
  proj_updated_at :: string

text \<open>The state of the page that the claims are about; all three start empty.\<close>

record InvitationPage =
  invitation :: "Invitation option"
  project :: "Project option"
  error :: string

text \<open>
  \<open>fetchInvitation\<close>. \<open>invitationData\<close> is the response to
  \<open>GET /team/invitations/by-token/{token}\<close>, \<open>now\<close> is \<open>new Date()\<close>, and \<open>get_project\<close>
  answers \<open>GET /projects/{id}\<close>. Each \<open>return\<close> of the source leaves \<open>invitation\<close>
  unset; a rejected request is caught and its message becomes the error.
\<close>

definition fetchInvitation ::
  "Invitation option response \<Rightarrow> int \<Rightarrow> (string \<Rightarrow> Project response) \<Rightarrow> InvitationPage" where
  "fetchInvitation invitationData now get_project =
     (case invitationData of
        Rejected message \<Rightarrow> \<lparr>invitation = None, project = None, error = message\<rparr>
      | Resolved None \<Rightarrow>
          \<lparr>invitation = None, project = None,
           error = ''Invitation not found or has expired''\<rparr>
      | Resolved (Some invite) \<Rightarrow>
          if accepted_at invite \<noteq> None
          then \<lparr>invitation = None, project = None,
                error = ''This invitation has already been accepted''\<rparr>
          else if expires_at invite < now
          then \<lparr>invitation = None, project = None, error = ''This invitation has expired''\<rparr>
          else (case get_project (inv_project_id invite) of
                  Rejected message \<Rightarrow>
                    \<lparr>invitation = Some invite, project = None, error = message\<rparr>
                | Resolved p \<Rightarrow>
                    \<lparr>invitation = Some invite, project = Some p, error = ''''\<rparr>))"

text \<open>
  What pressing Accept ends in: the redirect to the login page, the refusal
  (\<open>toast.error('Please log in with the invited email address')\<close>, the page's form of
  Forbidden), the success toast, the toast of a rejected request, the exception of
  reading \<open>invitation.invited_email\<close> when \<open>invitation\<close> is \<open>null\<close>, and, for
  \<open>press_accept\<close> below, the button not being there to press.
\<close>

datatype accept_outcome =
  To_login | Refused | Joined | Failed string | No_invitation | Not_offered

text \<open>
  \<open>handleAccept\<close>. \<open>post\<close> is the server's \<open>POST /team/invitations/{id}/accept\<close>; the
  bearer token tells the server who asks, so the user is an argument of \<open>post\<close>.
\<close>

definition handleAccept ::
  "('srv \<Rightarrow> User \<Rightarrow> string \<Rightarrow> 'srv \<times> unit response)
     \<Rightarrow> User option \<Rightarrow> Invitation option \<Rightarrow> 'srv \<Rightarrow> 'srv \<times> accept_outcome" where
  "handleAccept post user inv_opt srv =
     (case user of
        None \<Rightarrow> (srv, To_login)
      | Some u \<Rightarrow>
          (case inv_opt of
             None \<Rightarrow> (srv, No_invitation)
           | Some invite \<Rightarrow>
               if email u \<noteq> invited_email invite then (srv, Refused)
               else (case post srv u (inv_id invite) of
                       (srv', Resolved _) \<Rightarrow> (srv', Joined)
                     | (srv', Rejected message) \<Rightarrow> (srv', Failed message))))"

text \<open>
  The Accept button: the page renders the error card instead of it when \<open>error\<close> is
  not empty, and disables it when nobody is logged in or when
  \<open>user.email !== invitation?.invited_email\<close> (which holds when \<open>invitation\<close> is \<open>null\<close>).
  The button is also disabled while \<open>processing\<close> is set, that is while a request of
  the page is under way; \<open>accept_disabled\<close> is the condition of the page at rest.
  \<open>press_accept\<close> is the click on the button: \<open>handleAccept\<close> runs only when the button
  is rendered and enabled.
\<close>

definition accept_disabled :: "User option \<Rightarrow> InvitationPage \<Rightarrow> bool" where
  "accept_disabled user page \<longleftrightarrow>
     (case user of
        None \<Rightarrow> True
      | Some u \<Rightarrow>
          (case invitation page of None \<Rightarrow> True | Some invite \<Rightarrow> email u \<noteq> invited_email invite))"

definition press_accept ::
  "('srv \<Rightarrow> User \<Rightarrow> string \<Rightarrow> 'srv \<times> unit response)
     \<Rightarrow> User option \<Rightarrow> InvitationPage \<Rightarrow> 'srv \<Rightarrow> 'srv \<times> accept_outcome" where
  "press_accept post user page srv =
     (if error page \<noteq> [] \<or> accept_disabled user page then (srv, Not_offered)
      else handleAccept post user (invitation page) srv)"

text \<open>Following an invitation link and pressing Accept on the page it opens.\<close>

definition open_and_accept ::
  "('srv \<Rightarrow> User \<Rightarrow> string \<Rightarrow> 'srv \<times> unit response)
     \<Rightarrow> Invitation option response \<Rightarrow> int \<Rightarrow> (string \<Rightarrow> Project response)
     \<Rightarrow> User option \<Rightarrow> 'srv \<Rightarrow> 'srv \<times> accept_outcome" where
  "open_and_accept post invitationData now get_project user srv =
     press_accept post user (fetchInvitation invitationData now get_project) srv"

section \<open>Managing the team (pages/TeamPage.tsx, the component TeamMemberCard)\<close>

text \<open>\<open>TeamMember\<close>; \<open>email\<close> and \<open>username\<close> carry the prefix \<open>member_\<close>.\<close>

record TeamMember =
  user_id :: string
  member_email :: string
  member_username :: "string option"
  role :: ProjectRole
  joined_at :: string

definition canManage :: "ProjectRole \<Rightarrow> bool \<Rightarrow> bool" where
  "canManage currentUserRole isCurrentUser \<longleftrightarrow> currentUserRole = Owner \<and> \<not> isCurrentUser"

definition isOwner :: "TeamMember \<Rightarrow> bool" where
  "isOwner member \<longleftrightarrow> role member = Owner"

text \<open>
  The items of a card's menu that can be chosen: the menu is rendered when \<open>canManage\<close>
  holds, the three role changes when the member is not an owner, and \<open>Remove Member\<close>
  is disabled when the member is an owner.
\<close>

datatype menu_item = Change_to ProjectRole | Remove_Member

definition menu :: "TeamMember \<Rightarrow> bool \<Rightarrow> ProjectRole \<Rightarrow> menu_item list" where
  "menu member isCurrentUser currentUserRole =
     (if canManage currentUserRole isCurrentUser
      then (if \<not> isOwner member then [Change_to Owner, Change_to Editor, Change_to Viewer]
            else [])
           @ (if isOwner member then [] else [Remove_Member])
      else [])"

text \<open>
  \<open>handleChangeRole\<close> and \<open>handleRemoveMember\<close> of the page: the request is sent as it
  is asked for, and a rejection is caught and shown. \<open>put\<close> and \<open>delete\<close> are the
  server's \<open>PUT\<close> and \<open>DELETE /projects/{projectId}/members/{userId}\<close>.
\<close>

definition handleChangeRole ::
  "('srv \<Rightarrow> string \<Rightarrow> string \<Rightarrow> ProjectRole \<Rightarrow> 'srv \<times> unit response)
     \<Rightarrow> string \<Rightarrow> string \<Rightarrow> ProjectRole \<Rightarrow> 'srv \<Rightarrow> 'srv \<times> toast" where
  "handleChangeRole put projectId userId newRole srv =
     (case put srv projectId userId newRole of
        (srv', Resolved _) \<Rightarrow> (srv', Toast_success)
      | (srv', Rejected message) \<Rightarrow> (srv', Toast_error message))"

definition handleRemoveMember ::
  "('srv \<Rightarrow> string \<Rightarrow> string \<Rightarrow> 'srv \<times> unit response)
     \<Rightarrow> string \<Rightarrow> string \<Rightarrow> 'srv \<Rightarrow> 'srv \<times> toast" where
  "handleRemoveMember delete projectId userId srv =
     (case delete srv projectId userId of
        (srv', Resolved _) \<Rightarrow> (srv', Toast_success)
      | (srv', Rejected message) \<Rightarrow> (srv', Toast_error message))"

section \<open>The server's memberships and invitations\<close>

text \<open>
  Modelled from the spec: a membership of the missing back end, section 3: a "ternary
  relation (project, user, role)".
\<close>

record Membership =
  member_project :: string
  member_user :: string
  member_role :: ProjectRole

text \<open>Modelled from the spec: the user has a membership of the project.\<close>

definition is_member :: "Membership list \<Rightarrow> string \<Rightarrow> string \<Rightarrow> bool" where
  "is_member ms pid u \<longleftrightarrow> (\<exists>m \<in> set ms. member_project m = pid \<and> member_user m = u)"

text \<open>
  Modelled from the spec: the invariant of section 3, "at least one Owner per
  project", for one project.
\<close>

definition has_owner :: "Membership list \<Rightarrow> string \<Rightarrow> bool" where
  "has_owner ms pid \<longleftrightarrow> (\<exists>m \<in> set ms. member_project m = pid \<and> member_role m = Owner)"

text \<open>
  Modelled from the spec: "the target is the last remaining Owner" (section 4.1): the
  user is an owner of the project and nobody else is.
\<close>

definition last_owner :: "Membership list \<Rightarrow> string \<Rightarrow> string \<Rightarrow> bool" where
  "last_owner ms pid u \<longleftrightarrow>
     (\<exists>m \<in> set ms. member_project m = pid \<and> member_user m = u \<and> member_role m = Owner)
     \<and> \<not> (\<exists>m \<in> set ms. member_project m = pid \<and> member_user m \<noteq> u \<and> member_role m = Owner)"

text \<open>
  Modelled from the spec: the removal of a member by the missing back end
  (\<open>DELETE /projects/{id}/members/{userId}\<close>), as the spec describes the source.
  Section 4.1 asks that the removal fail with Conflict when the target is the last
  remaining Owner; section 3 records that this is "not enforced in the source", and
  section 9 that the invariant "is not actually enforced anywhere in the observed
  behavior (a project can end up ownerless)". So the member is removed whatever the
  role. A target that is no member of the project is answered with NotFound (section
  7: "entity absent"). The check of the caller's role is not part of this model: the
  operation is that of any caller.
\<close>

definition removeMember ::
  "Membership list \<Rightarrow> string \<Rightarrow> string \<Rightarrow> Membership list \<times> unit response" where
  "removeMember ms pid u =
     (if \<not> is_member ms pid u then (ms, Rejected (detail NotFound))
      else (filter (\<lambda>m. \<not> (member_project m = pid \<and> member_user m = u)) ms, Resolved ()))"


text \<open>
  Modelled from the spec: the memberships and the invitations of the missing back end
  (section 3).
\<close>

record team_store =
  members :: "Membership list"
  invitations :: "Invitation list"

text \<open>
  Modelled from the spec: the look-up of an invitation by its token in the missing back
  end (\<open>GET /team/invitations/by-token/{token}\<close>); an unknown token is answered with no
  data.
\<close>

definition invitation_by_token :: "team_store \<Rightarrow> string \<Rightarrow> Invitation option response" where
  "invitation_by_token store token =
     Resolved (find (\<lambda>i. invitation_token i = token) (invitations store))"

text \<open>
  Modelled from the spec: accepting an invitation in the missing back end
  (\<open>POST /team/invitations/{id}/accept\<close>), section 4.3: it "fails with NotFound if
  token unknown, Gone if already accepted, Expired if past TTL, Forbidden if the
  accepting user's verified email does not [...] match the invited email"; "on success:
  creates/updates Membership with the invited role, marks invitation accepted". The
  invitation is named by its identifier, as the page's request names it.
\<close>

definition acceptInvitation :: "int \<Rightarrow> team_store \<Rightarrow> User \<Rightarrow> string \<Rightarrow> team_store \<times> unit response" where
  "acceptInvitation now store user ident =
     (case find (\<lambda>i. inv_id i = ident) (invitations store) of
        None \<Rightarrow> (store, Rejected (detail NotFound))
      | Some invite \<Rightarrow>
          if accepted_at invite \<noteq> None then (store, Rejected (detail Gone))
          else if expires_at invite < now then (store, Rejected (detail Expired))
          else if email user \<noteq> invited_email invite then (store, Rejected (detail Forbidden))
          else (store
                 \<lparr>members :=
                    filter (\<lambda>m. \<not> (member_project m = inv_project_id invite
                                     \<and> member_user m = uid user)) (members store)
                    @ [\<lparr>member_project = inv_project_id invite, member_user = uid user,
                        member_role = inv_role invite\<rparr>],
                  invitations :=
                    map (\<lambda>i. if inv_id i = ident then i\<lparr>accepted_at := Some now\<rparr> else i)
                      (invitations store)\<rparr>,
                Resolved ()))"

text \<open>
  Sample data: the project Launch, owned by Alice; Bob is invited as an editor at time
  0, for seven days (604800000 ms).
\<close>

definition alice :: User where
  "alice = \<lparr>uid = ''u1'', email = ''alice@x.com'', username = Some ''alice'',
            is_active = True, registered_at = ''2025-01-01T00:00:00Z''\<rparr>"

definition bob :: User where
  "bob = \<lparr>uid = ''u2'', email = ''bob@x.com'', username = None,
          is_active = True, registered_at = ''2025-01-02T00:00:00Z''\<rparr>"

definition bob_capital :: User where
  "bob_capital = bob\<lparr>uid := ''u3'', email := ''Bob@x.com''\<rparr>"

definition launch :: Project where
  "launch = \<lparr>proj_id = ''p1'', proj_user_id = ''u1'', proj_title = ''Launch'',
             proj_description = None, proj_created_at = ''2025-01-01T00:00:00Z'',
             proj_updated_at = ''2025-01-01T00:00:00Z''\<rparr>"

definition bob_invitation :: Invitation where
  "bob_invitation =
     \<lparr>inv_id = ''i1'', inv_project_id = ''p1'', invited_email = ''bob@x.com'',
      inv_role = Editor, inv_created_at = 0, expires_at = 604800000, accepted_at = None,
      invitation_token = ''tok-1''\<rparr>"

definition launch_store :: team_store where
  "launch_store =
     \<lparr>members = [\<lparr>member_project = ''p1'', member_user = ''u1'', member_role = Owner\<rparr>],
      invitations = [bob_invitation]\<rparr>"

definition get_launch :: "string \<Rightarrow> Project response" where
  "get_launch ident = (if ident = ''p1'' then Resolved launch else Rejected (detail NotFound))"


text \<open>The effort input of a suggestion set to \<open>-1\<close>: the argument of \<open>handleUpdate\<close>.\<close>

definition effort_edit :: AISuggestion_updates where
  "effort_edit =
     \<lparr>upd_title = None, upd_description = None, upd_priority = None,
      upd_effort_estimate = Some (- 1)\<rparr>"

text \<open>The cards of the sample team, as the team page shows them.\<close>

definition alice_card :: TeamMember where
  "alice_card =
     \<lparr>user_id = ''u1'', member_email = ''alice@x.com'', member_username = Some ''alice'',
      role = Owner, joined_at = ''2025-01-01T00:00:00Z''\<rparr>"

definition bob_card :: TeamMember where
  "bob_card =
     \<lparr>user_id = ''u2'', member_email = ''bob@x.com'', member_username = None,
      role = Editor, joined_at = ''2025-01-02T00:00:00Z''\<rparr>"

chapter \<open>Properties\<close>

section \<open>Role permissions\<close>

text \<open>
  Claim C7. The permission table is monotone in the order Viewer, Editor, Owner: every
  permission granted to Viewer is granted to Editor, and every permission granted to
  Editor is granted to Owner. Viewer is granted viewing only; Editor also creating,
  editing and deleting tasks; Owner also team management and project settings. The lists
  the invitation page shows agree: each role's list is contained in the next one's, and
  what an Editor is told it cannot do is what the Owner's list has beyond the Editor's.
\<close>

theorem permissions_monotone:
  "(\<forall>p \<in> set permissions. (viewer p \<longrightarrow> editor p) \<and> (editor p \<longrightarrow> owner p))
   \<and> map name (filter viewer permissions) = [''View Tasks'']
   \<and> map name (filter editor permissions) =
       [''View Tasks'', ''Create Tasks'', ''Edit Tasks'', ''Delete Tasks'']
   \<and> map name (filter owner permissions) =
       [''View Tasks'', ''Create Tasks'', ''Edit Tasks'', ''Delete Tasks'', ''Manage Team'',
        ''Project Settings'']
   \<and> set (invitation_permissions Viewer) \<subseteq> set (invitation_permissions Editor)
   \<and> set (invitation_permissions Editor) \<subseteq> set (invitation_permissions Owner)
   \<and> invitation_permissions Viewer = [''View all tasks'']
   \<and> invitation_permissions Editor = invitation_permissions Viewer @
       [''Create new tasks'', ''Edit and delete tasks'']
   \<and> invitation_permissions Owner = invitation_permissions Editor @ cannotDo Editor
   \<and> cannotDo Owner = []"
  by (simp add: permissions_def)

theorem permissions_monotone_witness:
  "viewer (permissions ! 0) \<and> editor (permissions ! 0) \<and> owner (permissions ! 0)
   \<and> \<not> viewer (permissions ! 1) \<and> editor (permissions ! 1) \<and> owner (permissions ! 1)"
proof -
  have mono: "\<forall>p \<in> set permissions. (viewer p \<longrightarrow> editor p) \<and> (editor p \<longrightarrow> owner p)"
    using permissions_monotone by blast
  have m0: "permissions ! 0 \<in> set permissions" and m1: "permissions ! 1 \<in> set permissions"
    by (simp_all add: permissions_def)
  have v0: "viewer (permissions ! 0)" and v1: "\<not> viewer (permissions ! 1)"
    and e1: "editor (permissions ! 1)"
    by (simp_all add: permissions_def)
  from mono m0 v0 have "editor (permissions ! 0)" "owner (permissions ! 0)" by blast+
  moreover from mono m1 e1 have "owner (permissions ! 1)" by blast
  ultimately show ?thesis using v0 v1 e1 by blast
qed

section \<open>Dashboard statistics\<close>

lemma foldl_count_task:
  "foldl count_task acc ts =
     \<lparr>completed = completed acc + length (filter (\<lambda>t. status t = ''done'') ts),
      in_progress = in_progress acc + length (filter (\<lambda>t. status t = ''in_progress'') ts),
      todo = todo acc
        + length (filter (\<lambda>t. status t \<noteq> ''done'' \<and> status t \<noteq> ''in_progress'') ts)\<rparr>"
proof (induction ts arbitrary: acc)
  case Nil
  show ?case by simp
next
  case (Cons t ts)
  have step: "foldl count_task acc (t # ts) = foldl count_task (count_task acc t) ts"
    by simp
  show ?case
    unfolding step Cons.IH by (simp add: count_task_def)
qed

lemma length_three_way_split:
  "length (filter (\<lambda>t. f t = a) ts) + length (filter (\<lambda>t. f t = b) ts)
     + length (filter (\<lambda>t. f t \<noteq> a \<and> f t \<noteq> b) ts) = length ts" if "a \<noteq> b"
  using that by (induction ts) auto

text \<open>
  Claim C9. For every list of tasks the three counters add up to the number of tasks:
  \<open>completed\<close> counts the tasks whose status is \<open>done\<close>, \<open>in_progress\<close> those whose status
  is \<open>in_progress\<close>, and \<open>todo\<close> every other task, whatever its status string is.
\<close>

theorem stats_partition:
  "completed (stats ts) + in_progress (stats ts) + todo (stats ts) = length ts
   \<and> completed (stats ts) = length (filter (\<lambda>t. status t = ''done'') ts)
   \<and> in_progress (stats ts) = length (filter (\<lambda>t. status t = ''in_progress'') ts)
   \<and> todo (stats ts) =
       length (filter (\<lambda>t. status t \<noteq> ''done'' \<and> status t \<noteq> ''in_progress'') ts)"
proof -
  have ne: "''done'' \<noteq> ''in_progress''" by simp
  show ?thesis
    using length_three_way_split [OF ne, of status ts]
    by (simp add: stats_def foldl_count_task)
qed

theorem stats_partition_witness:
  "stats sample_tasks = \<lparr>completed = 1, in_progress = 1, todo = 2\<rparr>
   \<and> completed (stats sample_tasks) + in_progress (stats sample_tasks)
       + todo (stats sample_tasks) = length sample_tasks"
proof -
  have "stats sample_tasks = \<lparr>completed = 1, in_progress = 1, todo = 2\<rparr>"
    by (simp add: stats_def count_task_def sample_tasks_def sample_task_def)
  then show ?thesis using stats_partition [of sample_tasks] by blast
qed

section \<open>Arithmetic of JavaScript numbers\<close>

text \<open>The exponent that \<open>flog2\<close> computes is the binary exponent.\<close>

lemma pow2_less_iff: "(2::rat) powi m < 2 powi n \<longleftrightarrow> m < n"
proof
  assume "(2::rat) powi m < 2 powi n"
  then show "m < n"
    using power_int_increasing [of n m "2::rat"] by (cases "m < n") simp_all
next
  assume "m < n"
  then show "(2::rat) powi m < 2 powi n" by (intro power_int_strict_increasing) simp_all
qed

lemma pow2_le_iff: "(2::rat) powi m \<le> 2 powi n \<longleftrightarrow> m \<le> n"
  using pow2_less_iff [of n m] by (simp add: not_less [symmetric])

lemma flog2_bounds:
  assumes "0 < x"
  shows "2 powi flog2 x \<le> x" and "x < 2 powi (flog2 x + 1)"
proof -
  obtain p q where pq: "quotient_of x = (p, q)" by force
  have q: "0 < q" using quotient_of_denom_pos [OF pq] .
  have x: "x = of_int p / of_int q" using quotient_of_div [OF pq] .
  have p: "0 < p" using assms q unfolding x by (simp add: zero_less_divide_iff)
  define k where "k = bitlen p - bitlen q"
  have bp: "1 \<le> bitlen p" and bq: "1 \<le> bitlen q"
    using p q bitlen_eq_zero_iff [of p] bitlen_eq_zero_iff [of q] bitlen_nonneg [of p]
      bitlen_nonneg [of q] by linarith+
  have p_lo: "(2::rat) powi (bitlen p - 1) \<le> of_int p"
    and p_hi: "of_int p < (2::rat) powi bitlen p"
  proof -
    have "(2::rat) powi (bitlen p - 1) = of_int (2 ^ nat (bitlen p - 1))"
      using bp by (simp add: power_int_nonneg_exp)
    then show "(2::rat) powi (bitlen p - 1) \<le> of_int p"
      using bitlen_bounds [OF p] by (simp only: of_int_le_iff)
    have "(2::rat) powi bitlen p = of_int (2 ^ nat (bitlen p))"
      using bp by (simp add: power_int_nonneg_exp)
    then show "of_int p < (2::rat) powi bitlen p"
      using bitlen_bounds [OF p] by (simp only: of_int_less_iff)
  qed
  have q_lo: "(2::rat) powi (bitlen q - 1) \<le> of_int q"
    and q_hi: "of_int q < (2::rat) powi bitlen q"
  proof -
    have "(2::rat) powi (bitlen q - 1) = of_int (2 ^ nat (bitlen q - 1))"
      using bq by (simp add: power_int_nonneg_exp)
    then show "(2::rat) powi (bitlen q - 1) \<le> of_int q"
      using bitlen_bounds [OF q] by (simp only: of_int_le_iff)
    have "(2::rat) powi bitlen q = of_int (2 ^ nat (bitlen q))"
      using bq by (simp add: power_int_nonneg_exp)
    then show "of_int q < (2::rat) powi bitlen q"
      using bitlen_bounds [OF q] by (simp only: of_int_less_iff)
  qed
  have hi: "x < 2 powi (k + 1)"
  proof -
    have "of_int p / of_int q < (2::rat) powi bitlen p / 2 powi (bitlen q - 1)"
      using p p_hi q_lo by (intro frac_less) simp_all
    also have "\<dots> = 2 powi (bitlen p - (bitlen q - 1))"
      by (simp add: power_int_diff)
    finally show ?thesis by (simp add: x k_def algebra_simps)
  qed
  have lo: "2 powi (k - 1) \<le> x"
  proof -
    have "(2::rat) powi (bitlen p - 1) / 2 powi bitlen q \<le> of_int p / of_int q"
      using p q p_lo q_hi by (intro frac_le) simp_all
    moreover have "(2::rat) powi (bitlen p - 1) / 2 powi bitlen q = 2 powi (bitlen p - 1 - bitlen q)"
      by (simp add: power_int_diff)
    ultimately show ?thesis by (simp add: x k_def algebra_simps)
  qed
  have f: "flog2 x = (if 2 powi k \<le> x then k else k - 1)"
    by (simp add: flog2_def pq k_def Let_def)
  show "2 powi flog2 x \<le> x" using lo by (simp add: f)
  show "x < 2 powi (flog2 x + 1)" using hi by (auto simp add: f not_le)
qed

lemma flog2_eqI:
  assumes "2 powi l \<le> x" and "x < 2 powi (l + 1)"
  shows "flog2 x = l"
proof -
  have x: "0 < x" using assms(1) by (rule less_le_trans [rotated]) simp
  from flog2_bounds [OF x] assms
  have "(2::rat) powi l < 2 powi (flog2 x + 1)" and "(2::rat) powi flog2 x < 2 powi (l + 1)"
    by linarith+
  then have "l < flog2 x + 1" and "flog2 x < l + 1"
    by (simp_all add: pow2_less_iff)
  then show ?thesis by simp
qed

lemma flog2_mono:
  assumes "0 < x" and "x \<le> y"
  shows "flog2 x \<le> flog2 y"
proof -
  have "(2::rat) powi flog2 x < 2 powi (flog2 y + 1)"
    using flog2_bounds(1) [OF assms(1)] flog2_bounds(2) [of y] assms by linarith
  then show ?thesis by (simp add: pow2_less_iff)
qed

lemma round_half_even_ge_floor: "\<lfloor>y\<rfloor> \<le> round_half_even y"
  by (simp add: round_half_even_def Let_def)

lemma round_half_even_le_floor: "round_half_even y \<le> \<lfloor>y\<rfloor> + 1"
  by (simp add: round_half_even_def Let_def)

lemma round_half_even_of_int: "round_half_even (of_int n) = n"
  by (simp add: round_half_even_def)

lemma round_half_even_ge: "of_int n \<le> y \<Longrightarrow> n \<le> round_half_even y"
  using round_half_even_ge_floor [of y] le_floor_iff [of n y] by simp

lemma round_half_even_le:
  assumes "y \<le> of_int n"
  shows "round_half_even y \<le> n"
proof (cases "y = of_int n")
  case True then show ?thesis by (simp add: round_half_even_of_int)
next
  case False
  then have "y < of_int n" using assms by simp
  then have "\<lfloor>y\<rfloor> < n" by (simp add: floor_less_iff)
  then show ?thesis using round_half_even_le_floor [of y] by simp
qed

lemma round_half_even_mono:
  assumes "y \<le> z"
  shows "round_half_even y \<le> round_half_even z"
proof (cases "\<lfloor>y\<rfloor> = \<lfloor>z\<rfloor>")
  case True
  then show ?thesis using assms by (auto simp: round_half_even_def Let_def)
next
  case False
  then have "\<lfloor>y\<rfloor> < \<lfloor>z\<rfloor>" using floor_mono [OF assms] by simp
  then show ?thesis
    using round_half_even_le_floor [of y] round_half_even_ge_floor [of z] by simp
qed


text \<open>
  Rounding does not cross a value of the format: \<open>k * 2 powi d\<close> with \<open>k < 2 ^ 53\<close>
  and \<open>- 1074 \<le> d\<close> bounds \<open>nearest x\<close> from the side on which it bounds \<open>x\<close>. So
  \<open>nearest\<close> is monotone, and it leaves the values of the format as they are.
\<close>

lemma exponent_cases:
  "max (flog2 x - 52) (- 1074) = - 1074 \<or> max (flog2 x - 52) (- 1074) = flog2 x - 52"
  by (simp add: max_def)

lemma scale_pow2:
  assumes "e \<le> d"
  shows "of_int k * (2::rat) powi d = of_int (k * 2 ^ nat (d - e)) * 2 powi e"
proof -
  have "(2::rat) powi d = 2 powi (d - e) * 2 powi e"
    by (simp flip: power_int_add)
  also have "(2::rat) powi (d - e) = 2 ^ nat (d - e)"
    using assms by (simp add: power_int_nonneg_exp)
  finally show ?thesis by simp
qed

lemma grid_below_binade:
  assumes "k < 2 ^ 53" and "d < e"
  shows "of_int k * (2::rat) powi d < 2 powi (e + 52)"
proof -
  have "(of_int k :: rat) < of_int (2 ^ 53)" using assms(1) by (simp only: of_int_less_iff)
  then have "of_int k * (2::rat) powi d < of_int (2 ^ 53) * 2 powi d"
    by (rule mult_strict_right_mono) simp
  then have "of_int k * (2::rat) powi d < 2 ^ 53 * 2 powi d" by simp
  also have "(2::rat) ^ 53 * 2 powi d = 2 powi (53 + d)"
    by (simp add: power_int_add)
  also have "\<dots> \<le> 2 powi (e + 52)"
    using assms(2) by (simp add: pow2_le_iff)
  finally show ?thesis .
qed

lemma nearest_le:
  assumes "0 < x" and "x \<le> of_int k * 2 powi d" and "k < 2 ^ 53" and "- 1074 \<le> d"
  shows "nearest x \<le> of_int k * 2 powi d"
proof -
  define e where "e = max (flog2 x - 52) (- 1074)"
  have n: "nearest x = of_int (round_half_even (x / 2 powi e)) * 2 powi e"
    by (simp add: nearest_def e_def Let_def)
  show ?thesis
  proof (cases "e \<le> d")
    case True
    let ?n = "k * 2 ^ nat (d - e)"
    have b: "of_int k * (2::rat) powi d = of_int ?n * 2 powi e"
      using True by (rule scale_pow2)
    have "x / 2 powi e \<le> of_int ?n"
      using assms(2) unfolding b by (simp add: divide_le_eq)
    then have "round_half_even (x / 2 powi e) \<le> ?n" by (rule round_half_even_le)
    then have "(of_int (round_half_even (x / 2 powi e)) :: rat) \<le> of_int ?n"
      by (simp only: of_int_le_iff)
    then have "of_int (round_half_even (x / 2 powi e)) * 2 powi e \<le> of_int ?n * (2::rat) powi e"
      by (rule mult_right_mono) simp
    then show ?thesis unfolding n b .
  next
    case False
    then have "e \<noteq> - 1074" using assms(4) by simp
    then have e: "e = flog2 x - 52" using exponent_cases [of x] by (simp add: e_def)
    have "of_int k * (2::rat) powi d < 2 powi (e + 52)"
      using assms(3) False by (intro grid_below_binade) simp_all
    also have "\<dots> \<le> x" using flog2_bounds(1) [OF assms(1)] by (simp add: e)
    finally show ?thesis using assms(2) by simp
  qed
qed

lemma nearest_ge:
  assumes "0 < x" and "of_int k * 2 powi d \<le> x" and "k < 2 ^ 53" and "- 1074 \<le> d"
  shows "of_int k * 2 powi d \<le> nearest x"
proof -
  define e where "e = max (flog2 x - 52) (- 1074)"
  have n: "nearest x = of_int (round_half_even (x / 2 powi e)) * 2 powi e"
    by (simp add: nearest_def e_def Let_def)
  show ?thesis
  proof (cases "e \<le> d")
    case True
    let ?n = "k * 2 ^ nat (d - e)"
    have b: "of_int k * (2::rat) powi d = of_int ?n * 2 powi e"
      using True by (rule scale_pow2)
    have "of_int ?n \<le> x / 2 powi e"
      using assms(2) unfolding b by (simp add: le_divide_eq)
    then have "?n \<le> round_half_even (x / 2 powi e)" by (rule round_half_even_ge)
    then have "(of_int ?n :: rat) \<le> of_int (round_half_even (x / 2 powi e))"
      by (simp only: of_int_le_iff)
    then have "of_int ?n * (2::rat) powi e \<le> of_int (round_half_even (x / 2 powi e)) * 2 powi e"
      by (rule mult_right_mono) simp
    then show ?thesis unfolding n b .
  next
    case False
    then have "e \<noteq> - 1074" using assms(4) by simp
    then have e: "e = flog2 x - 52" using exponent_cases [of x] by (simp add: e_def)
    have "of_int k * (2::rat) powi d < 2 powi (e + 52)"
      using assms(3) False by (intro grid_below_binade) simp_all
    also have "(2::rat) powi (e + 52) = of_int (2 ^ 52) * 2 powi e"
      by (simp add: power_int_add)
    also have "\<dots> \<le> nearest x"
    proof -
      have "2 powi (e + 52) \<le> x" using flog2_bounds(1) [OF assms(1)] by (simp add: e)
      then have "of_int (2 ^ 52) \<le> x / 2 powi e"
        by (simp add: le_divide_eq power_int_add)
      then have "2 ^ 52 \<le> round_half_even (x / 2 powi e)" by (rule round_half_even_ge)
      then have "(of_int (2 ^ 52) :: rat) \<le> of_int (round_half_even (x / 2 powi e))"
        by (simp only: of_int_le_iff)
      then have "of_int (2 ^ 52) * (2::rat) powi e
          \<le> of_int (round_half_even (x / 2 powi e)) * 2 powi e"
        by (rule mult_right_mono) simp
      then show ?thesis unfolding n .
    qed
    finally show ?thesis by simp
  qed
qed

lemma nearest_grid:
  assumes "0 < x"
  shows "\<exists>k d. nearest x = of_int k * 2 powi d \<and> 0 \<le> k \<and> k < 2 ^ 53 \<and> - 1074 \<le> d"
proof -
  define e where "e = max (flog2 x - 52) (- 1074)"
  define m where "m = round_half_even (x / 2 powi e)"
  have n: "nearest x = of_int m * 2 powi e"
    by (simp add: nearest_def e_def m_def Let_def)
  have e: "- 1074 \<le> e" "flog2 x - 52 \<le> e" by (simp_all add: e_def)
  have "0 \<le> x / 2 powi e" using assms by simp
  then have m0: "0 \<le> m" unfolding m_def using round_half_even_ge [of 0] by simp
  have "x < 2 powi (flog2 x + 1)" using flog2_bounds(2) [OF assms] .
  also have "\<dots> \<le> 2 powi (e + 53)" using e(2) by (simp add: pow2_le_iff)
  finally have "x / 2 powi e \<le> of_int (2 ^ 53)"
    by (simp add: divide_le_eq power_int_add)
  then have m53: "m \<le> 2 ^ 53" unfolding m_def by (rule round_half_even_le)
  show ?thesis
  proof (cases "m = 2 ^ 53")
    case True
    have "(2::rat) powi (e + 1) = 2 powi e * 2" by (simp add: power_int_add)
    then have "nearest x = of_int (2 ^ 52) * 2 powi (e + 1)" unfolding n True by simp
    moreover have "(0::int) \<le> 2 ^ 52" and "(2::int) ^ 52 < 2 ^ 53" and "- 1074 \<le> e + 1"
      using e(1) by simp_all
    ultimately show ?thesis by blast
  next
    case False
    then have "m < 2 ^ 53" using m53 by simp
    then show ?thesis using n m0 e(1) by blast
  qed
qed

lemma nearest_nonneg: "0 < x \<Longrightarrow> 0 \<le> nearest x"
  using nearest_ge [of x 0 0] by simp

lemma nearest_mono:
  assumes "0 < x" and "x \<le> y"
  shows "nearest x \<le> nearest y"
proof -
  define e where "e = max (flog2 x - 52) (- 1074)"
  define e' where "e' = max (flog2 y - 52) (- 1074)"
  have y: "0 < y" using assms by simp
  have le: "e \<le> e'" using flog2_mono [OF assms] by (auto simp: e_def e'_def)
  show ?thesis
  proof (cases "e = e'")
    case True
    have "x / 2 powi e \<le> y / 2 powi e" using assms(2) by (simp add: divide_right_mono)
    then have "round_half_even (x / 2 powi e) \<le> round_half_even (y / 2 powi e)"
      by (rule round_half_even_mono)
    then have "(of_int (round_half_even (x / 2 powi e)) :: rat)
        \<le> of_int (round_half_even (y / 2 powi e))"
      by (simp only: of_int_le_iff)
    then have "of_int (round_half_even (x / 2 powi e)) * 2 powi e
        \<le> of_int (round_half_even (y / 2 powi e)) * (2::rat) powi e"
      by (rule mult_right_mono) simp
    then show ?thesis using True by (simp add: nearest_def e_def e'_def Let_def)
  next
    case False
    then have less: "e < e'" using le by simp
    then have "e' \<noteq> - 1074" by (simp add: e_def)
    then have e': "e' = flog2 y - 52" using exponent_cases [of y] by (simp add: e'_def)
    have "flog2 x - 52 \<le> e" by (simp add: e_def)
    then have "flog2 x + 1 \<le> e' + 52" using less by simp
    then have "(2::rat) powi (flog2 x + 1) \<le> 2 powi (e' + 52)" by (simp add: pow2_le_iff)
    then have x: "x \<le> 2 powi (e' + 52)" using flog2_bounds(2) [OF assms(1)] by simp
    have g: "(2::rat) powi (e' + 52) = of_int (2 ^ 52) * 2 powi e'"
      by (simp add: power_int_add)
    have d: "- 1074 \<le> e'" by (simp add: e'_def)
    have "nearest x \<le> of_int (2 ^ 52) * 2 powi e'"
      using assms(1) x d unfolding g by (intro nearest_le) simp_all
    moreover have "of_int (2 ^ 52) * 2 powi e' \<le> nearest y"
    proof (rule nearest_ge [OF y _ _ d])
      show "of_int (2 ^ 52) * 2 powi e' \<le> y"
        using flog2_bounds(1) [OF y] unfolding g [symmetric] by (simp add: e')
    qed simp
    ultimately show ?thesis by simp
  qed
qed

lemma nearest_fixed:
  assumes "0 < k" and "k < 2 ^ 53" and "- 1074 \<le> d"
  shows "nearest (of_int k * 2 powi d) = of_int k * 2 powi d"
proof -
  have "0 < of_int k * (2::rat) powi d" using assms(1) by simp
  then show ?thesis
    using nearest_le [of "of_int k * 2 powi d" k d] nearest_ge [of "of_int k * 2 powi d" k d]
      assms by simp
qed



text \<open>The same for \<open>to_double\<close>, on numbers that are not negative.\<close>

lemma to_double_pos:
  "0 < x \<Longrightarrow> to_double x = (if 2 ^ 1024 \<le> nearest x then Infinity else Finite (nearest x))"
  by (simp add: to_double_def)

lemma is_double_zero: "is_double 0"
  by (simp add: is_double_def to_double_def)

lemma is_double_grid:
  assumes "0 < k" and "k < 2 ^ 53" and "- 1074 \<le> d"
    and "of_int k * 2 powi d < (2::rat) ^ 1024"
  shows "is_double (of_int k * 2 powi d)"
proof -
  have "0 < of_int k * (2::rat) powi d" using assms(1) by simp
  then show ?thesis
    using nearest_fixed [OF assms(1-3)] assms(4) by (simp add: is_double_def to_double_pos)
qed

lemma is_double_of_int:
  assumes "0 \<le> n" and "n < 2 ^ 53"
  shows "is_double (of_int n)"
proof (cases "n = 0")
  case True then show ?thesis by (simp add: is_double_zero)
next
  case False
  have "(of_int n :: rat) < of_int (2 ^ 53)" using assms(2) by (simp only: of_int_less_iff)
  also have "\<dots> < (2::rat) ^ 1024" by simp
  finally have "of_int n * 2 powi 0 < (2::rat) ^ 1024" by simp
  then have "is_double (of_int n * 2 powi 0)"
    using False assms by (intro is_double_grid) simp_all
  then show ?thesis by simp
qed

lemma to_double_nonneg:
  assumes "0 \<le> x"
  shows "nonneg_double (to_double x)"
proof (cases "x = 0")
  case True
  then show ?thesis using is_double_zero by (simp add: nonneg_double_def to_double_def)
next
  case False
  then have x: "0 < x" using assms by simp
  obtain k d where g: "nearest x = of_int k * 2 powi d" "0 \<le> k" "k < 2 ^ 53" "- 1074 \<le> d"
    using nearest_grid [OF x] by blast
  show ?thesis
  proof (cases "2 ^ 1024 \<le> nearest x")
    case True then show ?thesis by (simp add: to_double_pos [OF x] nonneg_double_def)
  next
    case False
    have "is_double (nearest x)"
    proof (cases "k = 0")
      case True then show ?thesis by (simp add: g(1) is_double_zero)
    next
      case k: False
      show ?thesis unfolding g(1) using k g False by (intro is_double_grid) simp_all
    qed
    then show ?thesis
      using False nearest_nonneg [OF x] by (simp add: to_double_pos [OF x] nonneg_double_def)
  qed
qed

lemma to_double_mono:
  assumes "0 \<le> x" and "x \<le> y"
  shows "less_eq64 (to_double x) (to_double y)"
proof (cases "x = 0")
  case True
  have "nonneg_double (to_double y)" using assms by (intro to_double_nonneg) simp
  then show ?thesis
    by (cases "to_double y") (simp_all add: True to_double_def nonneg_double_def)
next
  case False
  then have x: "0 < x" and y: "0 < y" using assms by simp_all
  show ?thesis
    using nearest_mono [OF x assms(2)] by (simp add: to_double_pos x y)
qed

lemma less_eq64_double:
  assumes "is_double a" and "0 \<le> a" and "a \<le> x"
  shows "less_eq64 (Finite a) (to_double x)"
  using to_double_mono [OF assms(2,3)] assms(1) by (simp add: is_double_def)

lemma to_double_le_double:
  assumes "is_double b" and "0 \<le> x" and "x \<le> b"
  shows "\<exists>y. to_double x = Finite y \<and> 0 \<le> y \<and> y \<le> b \<and> is_double y"
proof -
  have "less_eq64 (to_double x) (Finite b)"
    using to_double_mono [OF assms(2,3)] assms(1) by (simp add: is_double_def)
  moreover have "nonneg_double (to_double x)" using assms(2) by (rule to_double_nonneg)
  ultimately show ?thesis by (cases "to_double x") (simp_all add: nonneg_double_def)
qed

lemma add64_nonneg:
  assumes "nonneg_double t" and "0 \<le> h"
  shows "nonneg_double (add64 t (Finite h))"
proof (cases t)
  case (Finite a)
  then have "0 \<le> a + h" using assms by (simp add: nonneg_double_def)
  then show ?thesis using Finite by (simp add: to_double_nonneg)
qed (use assms in \<open>simp_all add: nonneg_double_def\<close>)

lemma add64_both:
  assumes "less_eq64 c t" and "nonneg_double c" and "nonneg_double t" and "0 \<le> h"
  shows "less_eq64 (add64 c (Finite h)) (add64 t (Finite h))"
proof (cases c)
  case c: (Finite a)
  show ?thesis
  proof (cases t)
    case (Finite b)
    then show ?thesis using assms c by (simp add: to_double_mono nonneg_double_def)
  next
    case Infinity
    have "nonneg_double (to_double (a + h))"
      using assms c by (intro to_double_nonneg) (simp add: nonneg_double_def)
    then show ?thesis
      using c Infinity by (cases "to_double (a + h)") (simp_all add: nonneg_double_def)
  qed (use assms in \<open>simp_all add: nonneg_double_def\<close>)
next
  case Infinity
  then show ?thesis using assms by (cases t) (simp_all add: nonneg_double_def)
qed (use assms in \<open>simp_all add: nonneg_double_def\<close>)

lemma add64_right:
  assumes "less_eq64 c t" and "nonneg_double c" and "nonneg_double t" and "0 \<le> h"
  shows "less_eq64 c (add64 t (Finite h))"
proof (cases c)
  case c: (Finite a)
  show ?thesis
  proof (cases t)
    case (Finite b)
    then show ?thesis
      using assms c by (simp add: nonneg_double_def less_eq64_double)
  qed (use assms c in \<open>simp_all add: nonneg_double_def\<close>)
next
  case Infinity
  then show ?thesis using assms by (cases t) (simp_all add: nonneg_double_def)
qed (use assms in \<open>simp_all add: nonneg_double_def\<close>)

section \<open>Project progress\<close>

text \<open>
  The sum over the finished tasks never exceeds the sum over all tasks, although each
  is rounded at every step: rounding is monotone.
\<close>

lemma efforts_ordered:
  assumes "\<forall>t \<in> set tasks. \<forall>h. effort_estimate t = Some h \<longrightarrow> 0 \<le> h"
    and "less_eq64 c s" and "nonneg_double c" and "nonneg_double s"
  shows "less_eq64
           (foldl (\<lambda>sum t. add64 sum (Finite (effort_or_zero (effort_estimate t)))) c
              (doneTasks tasks))
           (foldl (\<lambda>sum t. add64 sum (Finite (effort_or_zero (effort_estimate t)))) s tasks)
         \<and> nonneg_double
           (foldl (\<lambda>sum t. add64 sum (Finite (effort_or_zero (effort_estimate t)))) c
              (doneTasks tasks))
         \<and> nonneg_double
           (foldl (\<lambda>sum t. add64 sum (Finite (effort_or_zero (effort_estimate t)))) s tasks)"
  using assms
proof (induction tasks arbitrary: c s)
  case Nil
  then show ?case by (simp add: doneTasks_def)
next
  case (Cons t tasks)
  define h where "h = effort_or_zero (effort_estimate t)"
  have h: "0 \<le> h" using Cons.prems(1) by (auto simp: h_def effort_or_zero_def split: option.splits)
  have rest: "\<forall>t \<in> set tasks. \<forall>h. effort_estimate t = Some h \<longrightarrow> 0 \<le> h"
    using Cons.prems(1) by simp
  have s': "nonneg_double (add64 s (Finite h))" using Cons.prems(4) h by (rule add64_nonneg)
  show ?case
  proof (cases "status t = ''done''")
    case True
    have "less_eq64 (add64 c (Finite h)) (add64 s (Finite h))"
      using Cons.prems(2-4) h by (rule add64_both)
    moreover have "nonneg_double (add64 c (Finite h))" using Cons.prems(3) h by (rule add64_nonneg)
    ultimately show ?thesis
      using Cons.IH [OF rest _ _ s', of "add64 c (Finite h)"] True
      by (simp add: doneTasks_def h_def)
  next
    case False
    have "less_eq64 c (add64 s (Finite h))" using Cons.prems(2-4) h by (rule add64_right)
    then show ?thesis
      using Cons.IH [OF rest _ Cons.prems(3) s', of ] False
      by (simp add: doneTasks_def h_def)
  qed
qed

lemma percent_of_ordered:
  assumes "less_eq64 c s" and "nonneg_double c" and "nonneg_double s" and "c \<noteq> Infinity"
  shows "\<exists>n. (if greater64 s (Finite 0) then Math_round (mul64 (div64 c s) (Finite 100))
              else Finite 0) = Finite (of_int n) \<and> 0 \<le> n \<and> n \<le> 100"
proof -
  obtain a where c: "c = Finite a" and a: "0 \<le> a"
    using assms(2,4) by (cases c) (simp_all add: nonneg_double_def)
  show ?thesis
  proof (cases s)
    case (Finite b)
    show ?thesis
    proof (cases "0 < b")
      case True
      have ab: "a \<le> b" using assms(1) c Finite by simp
      have "0 \<le> a / b" and "a / b \<le> 1" using a ab True by simp_all
      then obtain q where q: "to_double (a / b) = Finite q" "0 \<le> q" "q \<le> 1"
        using to_double_le_double [of 1 "a / b"] is_double_of_int [of 1] by auto
      have "0 \<le> q * 100" and "q * 100 \<le> 100" using q by simp_all
      then obtain r where r: "to_double (q * 100) = Finite r" "0 \<le> r" "r \<le> 100"
        using to_double_le_double [of 100 "q * 100"] is_double_of_int [of 100] by auto
      have "0 \<le> \<lfloor>r + 1 / 2\<rfloor>" using r(2) by simp
      moreover have "\<lfloor>r + 1 / 2\<rfloor> \<le> 100"
      proof -
        have "r + 1 / 2 < of_int 101" using r(3) by simp
        then have "\<lfloor>r + 1 / 2\<rfloor> < 101" by (simp only: floor_less_iff)
        then show ?thesis by simp
      qed
      ultimately show ?thesis using True c Finite q r by auto
    next
      case False
      then show ?thesis using Finite by (intro exI [of _ 0]) simp
    qed
  next
    case Infinity
    have "\<lfloor>(1::rat) / 2\<rfloor> = 0" by (simp add: floor_eq_iff)
    then show ?thesis using Infinity c by (intro exI [of _ 0]) (simp add: to_double_def)
  qed (use assms in \<open>simp_all add: nonneg_double_def\<close>)
qed

lemma efforts_sums:
  assumes "\<forall>t \<in> set tasks. \<forall>h. effort_estimate t = Some h \<longrightarrow> 0 \<le> h"
  shows "less_eq64 (completedEffort tasks) (totalEffort tasks)"
    and "nonneg_double (completedEffort tasks)"
    and "nonneg_double (totalEffort tasks)"
proof -
  have zero: "less_eq64 (Finite 0) (Finite 0)" "nonneg_double (Finite 0)"
    by (simp_all add: nonneg_double_def is_double_zero)
  show "less_eq64 (completedEffort tasks) (totalEffort tasks)"
    and "nonneg_double (completedEffort tasks)"
    and "nonneg_double (totalEffort tasks)"
    using efforts_ordered [OF assms zero(1) zero(2) zero(2)]
    by (simp_all add: completedEffort_def totalEffort_def)
qed

text \<open>
  When the finished tasks' estimates add up to Infinity, so do all the estimates; the
  guard \<open>totalEffort > 0\<close> lets Infinity pass, and Infinity / Infinity is NaN.
\<close>

lemma progressPercent_of_overflow:
  assumes "\<forall>t \<in> set tasks. \<forall>h. effort_estimate t = Some h \<longrightarrow> 0 \<le> h"
    and "completedEffort tasks = Infinity"
  shows "progressPercent tasks = Not_a_Number"
proof -
  have "totalEffort tasks = Infinity"
    using efforts_sums(1,3) [OF assms(1)] assms(2)
    by (cases "totalEffort tasks") (simp_all add: nonneg_double_def)
  then show ?thesis using assms(2) by (simp add: progressPercent_def)
qed

text \<open>
  The sum stays finite for all that the task form lets through: estimates of at most
  1000 hours, on fewer than nine million million tasks.
\<close>

lemma bounded_efforts_sum:
  assumes "\<forall>t \<in> set tasks. \<forall>h. effort_estimate t = Some h \<longrightarrow> 0 \<le> h \<and> h \<le> 1000"
    and "0 \<le> a" and "a \<le> 1000 * of_int j" and "0 \<le> j"
    and "j + int (length tasks) \<le> 9007199254740"
  shows "\<exists>r. foldl (\<lambda>sum t. add64 sum (Finite (effort_or_zero (effort_estimate t))))
               (Finite a) tasks = Finite r
             \<and> 0 \<le> r \<and> r \<le> 1000 * of_int (j + int (length tasks))"
  using assms
proof (induction tasks arbitrary: a j)
  case Nil
  then show ?case by simp
next
  case (Cons t tasks)
  define h where "h = effort_or_zero (effort_estimate t)"
  have h: "0 \<le> h" "h \<le> 1000"
    using Cons.prems(1) by (auto simp: h_def effort_or_zero_def split: option.splits)
  have "1000 * (j + 1) < 2 ^ 53" using Cons.prems(5) by simp
  then have "is_double (of_int (1000 * (j + 1)))"
    using Cons.prems(4) by (intro is_double_of_int) simp_all
  moreover have "0 \<le> a + h" using Cons.prems(2) h by simp
  moreover have "a + h \<le> of_int (1000 * (j + 1))"
    using Cons.prems(3) h by (simp add: algebra_simps)
  ultimately obtain y where y: "to_double (a + h) = Finite y" "0 \<le> y"
      "y \<le> of_int (1000 * (j + 1))"
    using to_double_le_double by blast
  have rest: "\<forall>t \<in> set tasks. \<forall>h. effort_estimate t = Some h \<longrightarrow> 0 \<le> h \<and> h \<le> 1000"
    using Cons.prems(1) by simp
  have "\<exists>r. foldl (\<lambda>sum t. add64 sum (Finite (effort_or_zero (effort_estimate t))))
               (Finite y) tasks = Finite r
             \<and> 0 \<le> r \<and> r \<le> 1000 * of_int (j + 1 + int (length tasks))"
    using y Cons.prems(4,5) by (intro Cons.IH [OF rest]) simp_all
  moreover have "j + 1 + int (length tasks) = j + int (length (t # tasks))" by simp
  ultimately show ?case using y(1) by (simp add: h_def del: of_int_add of_int_of_nat_eq)
qed

lemma completedEffort_finite:
  assumes "\<forall>t \<in> set tasks. \<forall>h. effort_estimate t = Some h \<longrightarrow> 0 \<le> h \<and> h \<le> 1000"
    and "length tasks \<le> 9007199254740"
  shows "completedEffort tasks \<noteq> Infinity"
proof -
  have "\<forall>t \<in> set (doneTasks tasks). \<forall>h. effort_estimate t = Some h \<longrightarrow> 0 \<le> h \<and> h \<le> 1000"
    using assms(1) by (auto simp: doneTasks_def)
  moreover have "0 + int (length (doneTasks tasks)) \<le> 9007199254740"
    using le_trans [OF length_filter_le assms(2), of "\<lambda>t. status t = ''done''"]
    by (simp add: doneTasks_def)
  ultimately have "\<exists>r. completedEffort tasks = Finite r \<and> 0 \<le> r
      \<and> r \<le> 1000 * of_int (0 + int (length (doneTasks tasks)))"
    unfolding completedEffort_def by (intro bounded_efforts_sum) simp_all
  then show ?thesis by auto
qed


text \<open>
  Claim C10, as amended. For every list of tasks whose effort estimates are non-negative
  or null, and whose finished tasks' estimates add up to a finite number in the page's
  arithmetic, \<open>progressPercent\<close> is an integer between 0 and 100; and when the total
  effort is 0 the division is not evaluated and \<open>progressPercent\<close> is 0.
\<close>

theorem progressPercent_bounded:
  assumes "\<forall>t \<in> set tasks. \<forall>h. effort_estimate t = Some h \<longrightarrow> 0 \<le> h"
    and "completedEffort tasks \<noteq> Infinity"
  shows "(\<exists>n. progressPercent tasks = Finite (of_int n) \<and> 0 \<le> n \<and> n \<le> 100)
         \<and> (totalEffort tasks = Finite 0 \<longrightarrow> progressPercent tasks = Finite 0)"
proof -
  have "\<exists>n. progressPercent tasks = Finite (of_int n) \<and> 0 \<le> n \<and> n \<le> 100"
    using percent_of_ordered [OF efforts_sums [OF assms(1)] assms(2)]
    by (simp add: progressPercent_def)
  moreover have "totalEffort tasks = Finite 0 \<longrightarrow> progressPercent tasks = Finite 0"
    by (simp add: progressPercent_def)
  ultimately show ?thesis by blast
qed

text \<open>Evaluating the arithmetic at given numbers.\<close>

lemma round_half_even_eqI:
  assumes "\<bar>y - of_int n\<bar> < 1 / 2"
  shows "round_half_even y = n"
proof -
  have "of_int n - 1 / 2 < y" and "y < of_int n + 1 / 2" using assms by linarith+
  show ?thesis
  proof (cases "of_int n \<le> y")
    case True
    then have "\<lfloor>y\<rfloor> = n" using \<open>y < of_int n + 1 / 2\<close> by (simp add: floor_eq_iff)
    then show ?thesis using \<open>y < of_int n + 1 / 2\<close> by (simp add: round_half_even_def)
  next
    case False
    then have "\<lfloor>y\<rfloor> = n - 1" using \<open>of_int n - 1 / 2 < y\<close> by (simp add: floor_eq_iff)
    then show ?thesis using \<open>of_int n - 1 / 2 < y\<close> by (simp add: round_half_even_def)
  qed
qed

lemma to_double_eqI:
  assumes "2 powi l \<le> x" and "x < 2 powi (l + 1)" and "- 1022 \<le> l" and "l < 1023"
    and "\<bar>x / 2 powi (l - 52) - of_int m\<bar> < 1 / 2"
  shows "to_double x = Finite (of_int m * 2 powi (l - 52))"
proof -
  have x: "0 < x" using assms(1) by (rule less_le_trans [rotated]) simp
  have l: "flog2 x = l" using assms(1,2) by (rule flog2_eqI)
  have e: "max (l - 52) (- 1074) = l - 52" using assms(3) by simp
  have n: "nearest x = of_int m * 2 powi (l - 52)"
    unfolding nearest_def l e Let_def round_half_even_eqI [OF assms(5)] ..
  have "nearest x \<le> of_int 1 * 2 powi (l + 1)"
    using x assms(2,3) by (intro nearest_le) simp_all
  moreover have "(2::rat) powi (l + 1) \<le> 2 powi 1023"
    using assms(4) unfolding pow2_le_iff by simp
  moreover have "(2::rat) powi 1023 < 2 ^ 1024" by simp
  ultimately have "nearest x < 2 ^ 1024" by simp
  then show ?thesis using n by (simp add: to_double_pos [OF x])
qed

lemma to_double_of_int:
  "0 \<le> n \<Longrightarrow> n < 2 ^ 53 \<Longrightarrow> to_double (of_int n) = Finite (of_int n)"
  using is_double_of_int [of n] by (simp add: is_double_def)

lemma to_double_small:
  "to_double 0 = Finite 0" "to_double 1 = Finite 1" "to_double 2 = Finite 2"
  "to_double 3 = Finite 3" "to_double 4 = Finite 4" "to_double 6 = Finite 6"
  "to_double 29 = Finite 29" "to_double 50 = Finite 50" "to_double 200 = Finite 200"
  "to_double (1 / 2) = Finite (1 / 2)"
  using to_double_of_int [of 0] to_double_of_int [of 1] to_double_of_int [of 2]
    to_double_of_int [of 3] to_double_of_int [of 4] to_double_of_int [of 6]
    to_double_of_int [of 29] to_double_of_int [of 50] to_double_of_int [of 200]
    is_double_grid [of 1 "- 1"]
  by (simp_all add: is_double_def)

lemma progressPercent_sample: "progressPercent sample_tasks = Finite 50"
proof -
  have c: "completedEffort sample_tasks = Finite 3"
    by (simp add: completedEffort_def doneTasks_def sample_tasks_def sample_task_def
        effort_or_zero_def to_double_small)
  have s: "totalEffort sample_tasks = Finite 6"
    by (simp add: totalEffort_def sample_tasks_def sample_task_def effort_or_zero_def
        to_double_small)
  have "\<lfloor>(50::rat) + 1 / 2\<rfloor> = 50" by (simp add: floor_eq_iff)
  then show ?thesis by (simp add: progressPercent_def c s to_double_small)
qed

lemma progressPercent_rounds_as_binary64: "progressPercent rounding_tasks = Finite 14"
proof -
  have c: "completedEffort rounding_tasks = Finite 29"
    by (simp add: completedEffort_def doneTasks_def rounding_tasks_def sample_task_def
        effort_or_zero_def to_double_small)
  have s: "totalEffort rounding_tasks = Finite 200"
    by (simp add: totalEffort_def rounding_tasks_def sample_task_def effort_or_zero_def
        to_double_small)
  have q: "to_double (29 / 200) = Finite (5224175567749775 / 2 ^ 55)"
    using to_double_eqI [of "- 3" "29 / 200" 5224175567749775] by simp
  have r: "to_double (5224175567749775 / 2 ^ 55 * 100) = Finite (8162774324609023 / 2 ^ 49)"
    using to_double_eqI [of 3 "5224175567749775 / 2 ^ 55 * 100" 8162774324609023] by simp
  have "\<lfloor>(8162774324609023::rat) / 2 ^ 49 + 1 / 2\<rfloor> = 14" by (simp add: floor_eq_iff)
  then show ?thesis using q r by (simp add: progressPercent_def c s)
qed

lemma huge_effort:
  "to_double (2 ^ 1023) = Finite (2 ^ 1023)"
  "to_double (2 ^ 1023 + 2 ^ 1023) = Infinity"
proof -
  show "to_double (2 ^ 1023) = Finite (2 ^ 1023)"
    using is_double_grid [of 1 1023] by (simp add: is_double_def)
  have "nearest (2 ^ 1024) = 2 ^ 1024" using nearest_fixed [of 1 1024] by simp
  then show "to_double (2 ^ 1023 + 2 ^ 1023) = Infinity" by (simp add: to_double_pos)
qed

lemma huge_sums:
  "completedEffort huge_tasks = Infinity" "totalEffort huge_tasks = Infinity"
proof -
  have a: "add64 (Finite 0) (Finite (2 ^ 1023)) = Finite (2 ^ 1023)"
    using huge_effort(1) by simp
  have b: "add64 (Finite (2 ^ 1023)) (Finite (2 ^ 1023)) = Infinity"
    using huge_effort(2) by simp
  have d: "doneTasks huge_tasks = huge_tasks"
    by (simp add: doneTasks_def huge_tasks_def sample_task_def)
  show "totalEffort huge_tasks = Infinity"
    unfolding totalEffort_def huge_tasks_def sample_task_def
    by (simp only: foldl.simps Task.simps effort_or_zero_def option.case a b)
  then show "completedEffort huge_tasks = Infinity"
    by (simp only: completedEffort_def totalEffort_def d)
qed

theorem progressPercent_bounded_witness:
  "completedEffort sample_tasks = Finite 3
   \<and> (\<exists>n. progressPercent sample_tasks = Finite (of_int n) \<and> 0 \<le> n \<and> n \<le> 100)
   \<and> progressPercent sample_tasks = Finite 50
   \<and> totalEffort [] = Finite 0 \<and> progressPercent [] = Finite 0"
proof -
  have h: "\<forall>t \<in> set sample_tasks. \<forall>h. effort_estimate t = Some h \<longrightarrow> 0 \<le> h"
    by (simp add: sample_tasks_def sample_task_def)
  have c: "completedEffort sample_tasks = Finite 3"
    by (simp add: completedEffort_def doneTasks_def sample_tasks_def sample_task_def
        effort_or_zero_def to_double_small)
  then have f: "completedEffort sample_tasks \<noteq> Infinity" by simp
  have e: "\<forall>t \<in> set ([] :: Task list). \<forall>h. effort_estimate t = Some h \<longrightarrow> 0 \<le> h"
    by simp
  have z: "totalEffort [] = Finite 0" "completedEffort [] \<noteq> Infinity"
    by (simp_all add: totalEffort_def completedEffort_def doneTasks_def)
  have "\<exists>n. progressPercent sample_tasks = Finite (of_int n) \<and> 0 \<le> n \<and> n \<le> 100"
    using progressPercent_bounded [OF h f] by (rule conjunct1)
  moreover have "progressPercent [] = Finite 0"
    using progressPercent_bounded [OF e z(2)] z(1) by blast
  ultimately show ?thesis using c z(1) progressPercent_sample by blast
qed

text \<open>
  The claim as it was stated, for every list with non-negative estimates, fails on two
  finished tasks whose estimate is \<open>2 ** 1023\<close>, a number of the format: their sum
  is Infinity, and the percentage is NaN, which is no integer.
\<close>

theorem progressPercent_overflow_counterexample:
  "map effort_estimate huge_tasks = [Some (2 ^ 1023), Some (2 ^ 1023)]
   \<and> (0::rat) \<le> 2 ^ 1023 \<and> is_double (2 ^ 1023)
   \<and> completedEffort huge_tasks = Infinity \<and> totalEffort huge_tasks = Infinity
   \<and> progressPercent huge_tasks = Not_a_Number"
proof -
  have "map effort_estimate huge_tasks = [Some (2 ^ 1023), Some (2 ^ 1023)]"
    by (simp add: huge_tasks_def sample_task_def)
  moreover have "is_double (2 ^ 1023)" using huge_effort(1) by (simp add: is_double_def)
  moreover have "progressPercent huge_tasks = Not_a_Number"
    by (simp add: progressPercent_def huge_sums)
  ultimately show ?thesis using huge_sums by simp
qed

section \<open>Creating a task by hand\<close>

lemma taskSchema_no_issue:
  "taskSchema t d e = [] \<longleftrightarrow>
     1 \<le> length (trim t) \<and> length (trim t) \<le> 200 \<and> length (trim d) \<le> 1000 \<and>
     (case e of None \<Rightarrow> True | Some NaN \<Rightarrow> False | Some (Number n) \<Rightarrow> 0 \<le> n \<and> n \<le> 1000)"
  by (auto simp: taskSchema_def Suc_le_eq split: option.splits js_number.splits)

lemma effort_minus_one: "effort ''-1'' = Some (Number (- 1))"
  by (simp add: effort_def parseInt_def isWhiteSpace_def isDigit_def digitValue_def digitsValue_def
      Let_def)

lemma effort_1001: "effort ''1001'' = Some (Number 1001)"
  by (simp add: effort_def parseInt_def isWhiteSpace_def isDigit_def digitValue_def digitsValue_def
      Let_def)

lemma trim_Plan: "trim ''Plan'' = ''Plan''" "trim '''' = ''''"
  by (simp_all add: trim_def isWhiteSpace_def)

text \<open>
  Claim C6, as amended. The validation of a new task accepts it exactly when the
  title, trimmed, has between 1 and 200 characters, the description, trimmed, has at
  most 1000 characters, and the effort estimate, if present, is a number between 0 and
  1000. When the validation finds an issue, \<open>handleSubmit\<close> returns the field errors and
  sends no request; a negative effort estimate is such an issue. Otherwise it sends the
  one request, with the trimmed title.
\<close>

theorem taskSchema_accepts_iff:
  "(taskSchema t d e = [] \<longleftrightarrow>
      1 \<le> length (trim t) \<and> length (trim t) \<le> 200 \<and> length (trim d) \<le> 1000 \<and>
      (case e of None \<Rightarrow> True | Some NaN \<Rightarrow> False | Some (Number n) \<Rightarrow> 0 \<le> n \<and> n \<le> 1000))
   \<and> (\<forall>n. n < 0 \<longrightarrow> taskSchema t d (Some (Number n)) \<noteq> [])
   \<and> (case handleSubmit t d p est of
         Inl fieldErrors \<Rightarrow> fieldErrors = taskSchema t d (effort est) \<and> fieldErrors \<noteq> []
       | Inr body \<Rightarrow> taskSchema t d (effort est) = [] \<and> new_title body = trim t)"
proof -
  have "\<forall>n. n < 0 \<longrightarrow> taskSchema t d (Some (Number n)) \<noteq> []"
    by (simp add: taskSchema_no_issue)
  moreover have "case handleSubmit t d p est of
         Inl fieldErrors \<Rightarrow> fieldErrors = taskSchema t d (effort est) \<and> fieldErrors \<noteq> []
       | Inr body \<Rightarrow> taskSchema t d (effort est) = [] \<and> new_title body = trim t"
    by (simp add: handleSubmit_def Let_def)
  ultimately show ?thesis using taskSchema_no_issue [of t d e] by blast
qed

lemma effort_8: "effort ''8'' = Some (Number 8)"
  by (simp add: effort_def parseInt_def isWhiteSpace_def isDigit_def digitValue_def digitsValue_def
      Let_def)

theorem taskSchema_accepts_iff_witness:
  "taskSchema ''Plan'' '''' (Some (Number 8)) = []
   \<and> taskSchema ''Plan'' '''' (effort ''-1'') \<noteq> []
   \<and> (\<exists>fieldErrors. handleSubmit ''Plan'' '''' Medium ''-1'' = Inl fieldErrors)
   \<and> (\<exists>body. handleSubmit ''Plan'' '''' Medium ''8'' = Inr body \<and> new_title body = ''Plan'')"
proof -
  have a: "taskSchema ''Plan'' '''' (Some (Number 8)) = []"
    using taskSchema_accepts_iff [of "''Plan''" "''''" "Some (Number 8)"]
    by (simp add: trim_Plan)
  have b: "taskSchema ''Plan'' '''' (effort ''-1'') \<noteq> []"
    using taskSchema_accepts_iff [of "''Plan''" "''''" "Some (Number (- 1))"]
    by (simp add: effort_minus_one)
  have c: "\<exists>fieldErrors. handleSubmit ''Plan'' '''' Medium ''-1'' = Inl fieldErrors"
    using taskSchema_accepts_iff [where t = "''Plan''" and d = "''''" and p = Medium
        and est = "''-1''"] b
    by (cases "handleSubmit ''Plan'' '''' Medium ''-1''") auto
  have d: "\<exists>body. handleSubmit ''Plan'' '''' Medium ''8'' = Inr body \<and> new_title body = ''Plan''"
    using taskSchema_accepts_iff [where t = "''Plan''" and d = "''''" and p = Medium
        and est = "''8''"] a
    by (cases "handleSubmit ''Plan'' '''' Medium ''8''") (auto simp: effort_8 trim_Plan)
  from a b c d show ?thesis by blast
qed

text \<open>
  A task within the bounds the claim names (title of 4 characters, effort estimate
  1001, which is not negative) is refused: the schema has an upper bound as well.
\<close>

theorem taskSchema_upper_bound_counterexample:
  "1 \<le> length (trim ''Plan'') \<and> length (trim ''Plan'') \<le> 200 \<and> (0 :: rat) \<le> 1001
   \<and> taskSchema ''Plan'' '''' (Some (Number 1001)) =
       [(''effort_estimate'', ''Number must be less than or equal to 1000'')]
   \<and> handleSubmit ''Plan'' '''' Medium ''1001'' =
       Inl [(''effort_estimate'', ''Number must be less than or equal to 1000'')]"
  by (simp add: handleSubmit_def taskSchema_def effort_1001 trim_Plan)

section \<open>Saving generated tasks\<close>

lemma subseq_tasksToCreate: "subseq (tasksToCreate ss) (map toTaskCreate ss)"
  unfolding tasksToCreate_def by (rule subseq_map) (rule subseq_filter_left)

text \<open>
  Claim C8. For every list of suggestions, the array \<open>handleSave\<close> submits holds, in
  their original order, exactly the suggestions whose trimmed title is not empty, each
  in its request form: it is a subsequence of the input list, its i-th element is made
  from the i-th suggestion kept, and the one request \<open>handleSave\<close> sends carries that
  array unchanged, whatever the server is. When no suggestion is dropped, the i-th
  element is made from the i-th suggestion of the list.
\<close>

theorem tasksToCreate_keeps_order:
  "subseq (tasksToCreate ss) (map toTaskCreate ss)
   \<and> subseq (filter has_title ss) ss
   \<and> length (tasksToCreate ss) = length (filter has_title ss)
   \<and> (\<forall>i < length (tasksToCreate ss).
         tasksToCreate ss ! i = toTaskCreate (filter has_title ss ! i)
         \<and> new_title (tasksToCreate ss ! i) = trim (s_title (filter has_title ss ! i)))
   \<and> ((\<forall>s \<in> set ss. has_title s) \<longrightarrow> tasksToCreate ss = map toTaskCreate ss)
   \<and> handleSave post pid ss srv =
       (case post srv pid (tasksToCreate ss) of
          (srv', Resolved u) \<Rightarrow> (srv', Toast_success)
        | (srv', Rejected message) \<Rightarrow> (srv', Toast_error message))"
  by (simp add: subseq_tasksToCreate)
     (simp add: tasksToCreate_def toTaskCreate_def handleSave_def)

lemma trim_samples:
  "trim '' Design schema '' = ''Design schema''" "trim ''Write API'' = ''Write API''"
  "trim ''Tables'' = ''Tables''" "trim ''  '' = ''''" "trim '''' = ''''"
  by (simp_all add: trim_def isWhiteSpace_def)

lemma filter_sample_suggestions:
  "filter has_title sample_suggestions = [suggestion_a, suggestion_b]"
  by (simp add: sample_suggestions_def handleAddManual_def has_title_def suggestion_a_def
      suggestion_b_def trim_samples)

theorem tasksToCreate_keeps_order_witness:
  "(1 :: nat) < length (tasksToCreate sample_suggestions)
   \<and> tasksToCreate sample_suggestions ! 1 = toTaskCreate suggestion_b
   \<and> new_title (tasksToCreate sample_suggestions ! 1) = ''Write API''
   \<and> tasksToCreate [suggestion_a, suggestion_b] = map toTaskCreate [suggestion_a, suggestion_b]"
proof -
  note order = tasksToCreate_keeps_order
    [where ss = sample_suggestions and post = bulkCreateTasks and pid = "[]" and srv = "[]"]
  have n: "(1 :: nat) < length (tasksToCreate sample_suggestions)"
    using order by (simp add: filter_sample_suggestions)
  have kept: "filter has_title sample_suggestions ! 1 = suggestion_b"
    by (simp add: filter_sample_suggestions)
  have t: "trim (s_title suggestion_b) = ''Write API''"
    by (simp add: suggestion_b_def trim_samples)
  from order n have
    "tasksToCreate sample_suggestions ! 1
       = toTaskCreate (filter has_title sample_suggestions ! 1)"
    "new_title (tasksToCreate sample_suggestions ! 1)
       = trim (s_title (filter has_title sample_suggestions ! 1))"
    by blast+
  then have "tasksToCreate sample_suggestions ! 1 = toTaskCreate suggestion_b"
    "new_title (tasksToCreate sample_suggestions ! 1) = ''Write API''"
    unfolding kept t by blast+
  moreover have "\<forall>s \<in> set [suggestion_a, suggestion_b]. has_title s"
    by (simp add: has_title_def suggestion_a_def suggestion_b_def trim_samples)
  then have "tasksToCreate [suggestion_a, suggestion_b]
      = map toTaskCreate [suggestion_a, suggestion_b]"
    using tasksToCreate_keeps_order
      [where ss = "[suggestion_a, suggestion_b]" and post = bulkCreateTasks and pid = "[]"
        and srv = "[]"]
    by blast
  ultimately show ?thesis using n by blast
qed

section \<open>The server's task store\<close>

lemma create_each_all_valid:
  "\<forall>f \<in> set fs. valid_fields f \<Longrightarrow>
     create_each store pid fs = Inr (store @ map (Pair pid) fs)"
  by (induction fs arbitrary: store) (simp_all add: createTask_def)

lemma create_each_some_invalid:
  "\<exists>f \<in> set fs. \<not> valid_fields f \<Longrightarrow> create_each store pid fs = Inl ValidationError"
proof (induction fs arbitrary: store)
  case Nil
  then show ?case by simp
next
  case (Cons f fs)
  show ?case
  proof (cases "valid_fields f")
    case True
    with Cons.prems have "\<exists>g \<in> set fs. \<not> valid_fields g" by simp
    then show ?thesis using True by (simp add: createTask_def Cons.IH)
  next
    case False
    then show ?thesis by (simp add: createTask_def)
  qed
qed

lemma bulkCreateTasks_rejects:
  "\<exists>f \<in> set fs. \<not> valid_fields f \<Longrightarrow>
     bulkCreateTasks store pid fs = (store, Rejected (detail ValidationError))"
  by (simp add: bulkCreateTasks_def create_each_some_invalid)

lemma bulkCreateTasks_accepts:
  "\<forall>f \<in> set fs. valid_fields f \<Longrightarrow>
     bulkCreateTasks store pid fs = (store @ map (Pair pid) fs, Resolved ())"
  by (simp add: bulkCreateTasks_def create_each_all_valid)

text \<open>
  Claim C2. \<open>bulkCreateTasks\<close> is all-or-nothing: for every store and every batch of
  items, if any item of the batch fails validation the request is rejected and the
  store is the one before the call, so that none of the batch is persisted, the valid
  items included; and if every item passes, the store gains exactly the items of the
  batch, in the order supplied.

  The page does not undo this: \<open>handleSave\<close> sends its batch (the suggestions that have
  a title) in one request, the server's state after it is the state that request left,
  and a rejection is shown and not followed by a request for the valid items.
\<close>

theorem bulkCreateTasks_all_or_nothing:
  "((\<exists>f \<in> set fs. \<not> valid_fields f) \<longrightarrow>
      bulkCreateTasks store pid fs = (store, Rejected (detail ValidationError)))
   \<and> ((\<forall>f \<in> set fs. valid_fields f) \<longrightarrow>
      bulkCreateTasks store pid fs = (store @ map (Pair pid) fs, Resolved ()))
   \<and> fst (handleSave post pid ss srv) = fst (post srv pid (tasksToCreate ss))
   \<and> (snd (handleSave post pid ss srv) = Toast_error message
        \<longleftrightarrow> snd (post srv pid (tasksToCreate ss)) = Rejected message)
   \<and> ((\<exists>f \<in> set (tasksToCreate ss). \<not> valid_fields f) \<longrightarrow>
      handleSave bulkCreateTasks pid ss store =
        (store, Toast_error (detail ValidationError)))
   \<and> ((\<forall>f \<in> set (tasksToCreate ss). valid_fields f) \<longrightarrow>
      handleSave bulkCreateTasks pid ss store =
        (store @ map (Pair pid) (tasksToCreate ss), Toast_success))"
proof -
  have "fst (handleSave post pid ss srv) = fst (post srv pid (tasksToCreate ss))"
    and "snd (handleSave post pid ss srv) = Toast_error message
        \<longleftrightarrow> snd (post srv pid (tasksToCreate ss)) = Rejected message"
    by (auto simp: handleSave_def split: prod.splits response.splits)
  then show ?thesis
    by (simp add: handleSave_def bulkCreateTasks_rejects bulkCreateTasks_accepts)
qed

lemma tasksToCreate_sample:
  "tasksToCreate sample_suggestions = [toTaskCreate suggestion_a, toTaskCreate suggestion_b]"
  by (simp add: tasksToCreate_def filter_sample_suggestions)

lemma valid_fields_samples:
  "valid_fields (toTaskCreate suggestion_a)" "valid_fields (toTaskCreate suggestion_b)"
  "\<not> valid_fields (toTaskCreate (sample_suggestions ! 1))"
  by (simp_all add: valid_fields_def toTaskCreate_def suggestion_a_def suggestion_b_def
      sample_suggestions_def handleAddManual_def trim_samples)

lemma tasksToCreate_effort_edit:
  "tasksToCreate (handleUpdate [suggestion_a, suggestion_b] ''s2'' effort_edit) =
     [toTaskCreate suggestion_a, toTaskCreate (spread_updates suggestion_b effort_edit)]"
  by (simp add: tasksToCreate_def handleUpdate_def has_title_def spread_updates_def
      effort_edit_def suggestion_a_def suggestion_b_def trim_samples)

lemma invalid_effort_edit:
  "\<not> valid_fields (toTaskCreate (spread_updates suggestion_b effort_edit))"
  by (simp add: valid_fields_def toTaskCreate_def spread_updates_def effort_edit_def)

text \<open>
  A batch of three items whose second has an empty title is rejected whole, and so is
  the batch the page sends after the effort of the second suggestion was set to -1;
  the batch of the two valid items is stored.
\<close>

theorem bulkCreateTasks_all_or_nothing_witness:
  "bulkCreateTasks [] ''p1'' (map toTaskCreate sample_suggestions) =
     ([], Rejected ''ValidationError'')
   \<and> new_title (map toTaskCreate sample_suggestions ! 1) = ''''
   \<and> bulkCreateTasks [] ''p1'' [toTaskCreate suggestion_a, toTaskCreate suggestion_b] =
     ([(''p1'', toTaskCreate suggestion_a), (''p1'', toTaskCreate suggestion_b)], Resolved ())
   \<and> handleSave bulkCreateTasks ''p1''
        (handleUpdate [suggestion_a, suggestion_b] ''s2'' effort_edit) [] =
     ([], Toast_error ''ValidationError'')
   \<and> handleSave bulkCreateTasks ''p1'' sample_suggestions [] =
     ([(''p1'', toTaskCreate suggestion_a), (''p1'', toTaskCreate suggestion_b)],
      Toast_success)"
proof -
  have v: "\<forall>f \<in> set (tasksToCreate sample_suggestions). valid_fields f"
    by (simp add: tasksToCreate_sample valid_fields_samples)
  have v': "\<forall>f \<in> set [toTaskCreate suggestion_a, toTaskCreate suggestion_b]. valid_fields f"
    by (simp add: valid_fields_samples)
  have i: "\<exists>f \<in> set (map toTaskCreate sample_suggestions). \<not> valid_fields f"
    using valid_fields_samples(3)
    by (simp add: sample_suggestions_def handleAddManual_def)
  have e: "\<exists>f \<in> set (tasksToCreate
      (handleUpdate [suggestion_a, suggestion_b] ''s2'' effort_edit)). \<not> valid_fields f"
    by (simp add: tasksToCreate_effort_edit invalid_effort_edit)
  have t: "new_title (map toTaskCreate sample_suggestions ! 1) = ''''"
    by (simp add: sample_suggestions_def handleAddManual_def toTaskCreate_def trim_def)
  have "handleSave bulkCreateTasks ''p1'' sample_suggestions [] =
     ([(''p1'', toTaskCreate suggestion_a), (''p1'', toTaskCreate suggestion_b)],
      Toast_success)
   \<and> bulkCreateTasks [] ''p1'' (map toTaskCreate sample_suggestions) =
     ([], Rejected ''ValidationError'')"
    using bulkCreateTasks_all_or_nothing
      [where ss = sample_suggestions and pid = "''p1''" and store = "[]"
        and fs = "map toTaskCreate sample_suggestions" and post = bulkCreateTasks
        and srv = "[]" and message = "''ValidationError''"] v i
    by (simp add: tasksToCreate_sample)
  moreover have "handleSave bulkCreateTasks ''p1''
        (handleUpdate [suggestion_a, suggestion_b] ''s2'' effort_edit) [] =
     ([], Toast_error ''ValidationError'')
   \<and> bulkCreateTasks [] ''p1'' [toTaskCreate suggestion_a, toTaskCreate suggestion_b] =
     ([(''p1'', toTaskCreate suggestion_a), (''p1'', toTaskCreate suggestion_b)], Resolved ())"
    using bulkCreateTasks_all_or_nothing
      [where ss = "handleUpdate [suggestion_a, suggestion_b] ''s2'' effort_edit"
        and pid = "''p1''" and store = "[]"
        and fs = "[toTaskCreate suggestion_a, toTaskCreate suggestion_b]"
        and post = bulkCreateTasks and srv = "[]" and message = "''ValidationError''"] e v'
    by simp
  ultimately show ?thesis using t by blast
qed

section \<open>Provenance of saved tasks\<close>

lemma toTaskCreate_provenance:
  "(new_created_by (toTaskCreate s) = By_ai \<longleftrightarrow> source s = ''gemini'')
   \<and> (new_created_by (toTaskCreate s) = By_user \<longleftrightarrow> source s \<noteq> ''gemini'')
   \<and> (new_ai_generated (toTaskCreate s) \<longleftrightarrow> source s = ''gemini'')"
  by (simp add: toTaskCreate_def)

lemma toTaskCreate_suggestion_is_current:
  "source s = ''gemini'' \<Longrightarrow>
     new_ai_priority_suggestion (toTaskCreate s) = Some (new_priority (toTaskCreate s))
     \<and> new_ai_effort_suggestion (toTaskCreate s) = new_effort_estimate (toTaskCreate s)"
  by (simp add: toTaskCreate_def)

lemma saved_task_never_modified:
  "\<not> wasModified (stored_task ident time (pid, toTaskCreate s))"
  by (simp add: wasModified_def stored_task_def toTaskCreate_def)

text \<open>
  Claim C3. The claim is that a task saved from the generation page carries the
  provenance \<open>ai\<close> exactly when its suggestion came from \<open>gemini\<close>, and that an AI-sourced
  task is stored with the priority and effort the AI suggested, not with values the
  user edited before saving. The code does the first and not the second. Here the AI
  suggests priority \<open>high\<close>; the user sets the priority selector to \<open>low\<close> and saves. The
  request carries the provenance \<open>ai\<close>, the priority \<open>low\<close>, and \<open>low\<close> again as the
  AI's suggested priority: the value the AI suggested is not sent, and the stored task
  does not count as modified, although the page had marked the suggestion as modified.
\<close>

theorem handleSave_sends_edited_priority_as_suggestion:
  "source suggestion_a = ''gemini'' \<and> s_priority suggestion_a = High
   \<and> map modified (handleUpdate [suggestion_a] ''s1'' priority_edit) = [True]
   \<and> map new_created_by (tasksToCreate (handleUpdate [suggestion_a] ''s1'' priority_edit))
       = [By_ai]
   \<and> map new_priority (tasksToCreate (handleUpdate [suggestion_a] ''s1'' priority_edit))
       = [Low]
   \<and> map new_ai_priority_suggestion
         (tasksToCreate (handleUpdate [suggestion_a] ''s1'' priority_edit)) = [Some Low]
   \<and> map (\<lambda>f. wasModified (stored_task ''t1'' ''2025-01-03T00:00:00Z'' (''p1'', f)))
         (tasksToCreate (handleUpdate [suggestion_a] ''s1'' priority_edit)) = [False]"
proof -
  have t: "trim '' Design schema '' = ''Design schema''" "trim ''Tables'' = ''Tables''"
    by (simp_all add: trim_def isWhiteSpace_def)
  show ?thesis
    by (simp add: tasksToCreate_def handleUpdate_def spread_updates_def priority_edit_def
        suggestion_a_def has_title_def toTaskCreate_def wasModified_def stored_task_def t)
qed

theorem handleSave_sends_edited_priority_as_suggestion_witness:
  "map new_ai_priority_suggestion
     (tasksToCreate (handleUpdate [suggestion_a] ''s1'' priority_edit)) = [Some Low]
   \<and> map new_priority (tasksToCreate (handleUpdate [suggestion_a] ''s1'' priority_edit))
       = [Low]"
  using handleSave_sends_edited_priority_as_suggestion by blast

section \<open>Accepting an invitation\<close>

text \<open>
  Claim C4. For every invitation and every logged-in user, pressing Accept sends the
  accept request only when the user's email and the invited email are the same string
  (the comparison is \<open>!==\<close>: exact, case-sensitive). When they differ, \<open>handleAccept\<close>
  refuses with the toast asking for the invited email address, the button is disabled,
  no request is sent and the server's state is the one before, whatever the server is:
  no membership is created.
\<close>

theorem handleAccept_requires_invited_email:
  "(email u \<noteq> invited_email i \<longrightarrow>
      handleAccept post (Some u) (Some i) srv = (srv, Refused)
      \<and> press_accept post (Some u) \<lparr>invitation = Some i, project = p, error = e\<rparr> srv
          = (srv, Not_offered))
   \<and> (email u = invited_email i \<longrightarrow>
      handleAccept post (Some u) (Some i) srv =
        (case post srv u (inv_id i) of
           (srv', Resolved x) \<Rightarrow> (srv', Joined)
         | (srv', Rejected message) \<Rightarrow> (srv', Failed message)))
   \<and> (snd (handleAccept post (Some u) (Some i) srv) = Joined \<longrightarrow>
      email u = invited_email i)"
  by (auto simp: handleAccept_def press_accept_def accept_disabled_def
      split: prod.splits response.splits)

lemma email_not_invited:
  "email bob_capital \<noteq> invited_email bob_invitation"
  "email alice \<noteq> invited_email bob_invitation"
  by (simp_all add: bob_capital_def bob_def alice_def bob_invitation_def)

theorem handleAccept_requires_invited_email_witness:
  "email bob_capital = ''Bob@x.com'' \<and> invited_email bob_invitation = ''bob@x.com''
   \<and> handleAccept (acceptInvitation 1000) (Some bob_capital) (Some bob_invitation)
        launch_store = (launch_store, Refused)
   \<and> handleAccept (acceptInvitation 1000) (Some alice) (Some bob_invitation)
        launch_store = (launch_store, Refused)
   \<and> snd (handleAccept (acceptInvitation 1000) (Some bob) (Some bob_invitation)
        launch_store) = Joined"
proof -
  have "handleAccept (acceptInvitation 1000) (Some bob_capital) (Some bob_invitation)
        launch_store = (launch_store, Refused)"
    using handleAccept_requires_invited_email
      [where u = bob_capital and i = bob_invitation and post = "acceptInvitation 1000"
        and srv = launch_store and p = None and e = "[]"]
      email_not_invited(1)
    by blast
  moreover have "handleAccept (acceptInvitation 1000) (Some alice) (Some bob_invitation)
        launch_store = (launch_store, Refused)"
    using handleAccept_requires_invited_email
      [where u = alice and i = bob_invitation and post = "acceptInvitation 1000"
        and srv = launch_store and p = None and e = "[]"]
      email_not_invited(2)
    by blast
  moreover have "snd (handleAccept (acceptInvitation 1000) (Some bob) (Some bob_invitation)
        launch_store) = Joined"
  proof -
    have same: "email bob = invited_email bob_invitation"
      by (simp add: bob_def bob_invitation_def)
    have sent: "snd (acceptInvitation 1000 launch_store bob (inv_id bob_invitation))
        = Resolved ()"
      by (simp add: acceptInvitation_def launch_store_def bob_invitation_def bob_def)
    from handleAccept_requires_invited_email
      [where u = bob and i = bob_invitation and post = "acceptInvitation 1000"
        and srv = launch_store and p = None and e = "[]"] same
    have "handleAccept (acceptInvitation 1000) (Some bob) (Some bob_invitation) launch_store =
        (case acceptInvitation 1000 launch_store bob (inv_id bob_invitation) of
           (srv', Resolved x) \<Rightarrow> (srv', Joined)
         | (srv', Rejected message) \<Rightarrow> (srv', Failed message))"
      by blast
    then show ?thesis
      using sent by (cases "acceptInvitation 1000 launch_store bob (inv_id bob_invitation)") simp
  qed
  ultimately show ?thesis by (simp add: bob_capital_def bob_def bob_invitation_def)
qed

lemma acceptInvitation_rejects:
  "find (\<lambda>j. inv_id j = ident) (invitations store) = None \<Longrightarrow>
     acceptInvitation now store u ident = (store, Rejected (detail NotFound))"
  "find (\<lambda>j. inv_id j = ident) (invitations store) = Some j \<Longrightarrow> accepted_at j \<noteq> None \<Longrightarrow>
     acceptInvitation now store u ident = (store, Rejected (detail Gone))"
  "find (\<lambda>j. inv_id j = ident) (invitations store) = Some j \<Longrightarrow> accepted_at j = None \<Longrightarrow>
     expires_at j < now \<Longrightarrow>
     acceptInvitation now store u ident = (store, Rejected (detail Expired))"
  by (simp_all add: acceptInvitation_def)

lemma handleAccept_passes_rejection:
  "post srv u (inv_id i) = (srv, Rejected message) \<Longrightarrow> email u = invited_email i \<Longrightarrow>
     handleAccept post (Some u) (Some i) srv = (srv, Failed message)"
  by (simp add: handleAccept_def)

lemma find_map_same_key:
  "(\<And>x. P (f x) = P x) \<Longrightarrow> find P (map f xs) = map_option f (find P xs)"
  by (induction xs) simp_all

text \<open>
  With the server modelled above, an invitation that has been accepted is marked so,
  and following its link again ends at the error card: the second attempt sends nothing.
\<close>

lemma second_acceptance_changes_nothing:
  assumes "open_and_accept (acceptInvitation now) (invitation_by_token store token) now
             get_project (Some u) store = (store', Joined)"
  shows "open_and_accept (acceptInvitation now') (invitation_by_token store' token) now'
           get_project' user' store' = (store', Not_offered)"
proof -
  let ?by_token = "\<lambda>i. invitation_token i = token"
  obtain i where found: "find ?by_token (invitations store) = Some i"
    using assms
    by (auto simp: open_and_accept_def press_accept_def fetchInvitation_def
        invitation_by_token_def accept_disabled_def handleAccept_def
        split: option.splits if_splits response.splits)
  have sent: "acceptInvitation now store u (inv_id i) = (store', Resolved ())"
    using assms found
    by (auto simp: open_and_accept_def press_accept_def fetchInvitation_def
        invitation_by_token_def accept_disabled_def handleAccept_def
        split: option.splits if_splits response.splits prod.splits)
  let ?mark = "\<lambda>j. if inv_id j = inv_id i then j\<lparr>accepted_at := Some now\<rparr> else j"
  have "invitations store' = map ?mark (invitations store)"
    using sent by (auto simp: acceptInvitation_def split: option.splits if_splits)
  then have "find ?by_token (invitations store') = Some (i\<lparr>accepted_at := Some now\<rparr>)"
    using found find_map_same_key [of ?by_token ?mark "invitations store"] by simp
  then show ?thesis
    by (simp add: open_and_accept_def press_accept_def fetchInvitation_def
        invitation_by_token_def)
qed

text \<open>
  Claim C5. Accepting fails and no membership is created in each of these cases: the
  server knows no invitation for the token, the invitation has been accepted already,
  or the current time is past \<open>expires_at\<close>.

  When the invitation link is opened in one of these cases, the page shows, in this
  order of precedence, that the invitation was not found (also when the request for it
  is rejected), that it has already been accepted, or that it has expired: the page's
  forms of NotFound, Gone and Expired. It never sets \<open>invitation\<close>, the Accept button is
  not offered, and nothing is sent, whatever the server is.

  A page that was opened earlier still offers the button; its request is then
  answered by the server, which in the same three cases rejects it with NotFound, Gone
  or Expired and keeps its state, and the page shows the rejection. After an
  acceptance the server has marked the invitation, so that opening the link a second
  time ends at the error card and creates nothing.
\<close>

theorem open_and_accept_fails:
  "(invitationData = Resolved None \<longrightarrow>
      fetchInvitation invitationData now get_project =
        \<lparr>invitation = None, project = None,
         error = ''Invitation not found or has expired''\<rparr>
      \<and> open_and_accept post invitationData now get_project user srv = (srv, Not_offered))
   \<and> (invitationData = Rejected message \<longrightarrow>
      fetchInvitation invitationData now get_project =
        \<lparr>invitation = None, project = None, error = message\<rparr>
      \<and> open_and_accept post invitationData now get_project user srv = (srv, Not_offered))
   \<and> (invitationData = Resolved (Some i) \<and> accepted_at i \<noteq> None \<longrightarrow>
      fetchInvitation invitationData now get_project =
        \<lparr>invitation = None, project = None,
         error = ''This invitation has already been accepted''\<rparr>
      \<and> open_and_accept post invitationData now get_project user srv = (srv, Not_offered))
   \<and> (invitationData = Resolved (Some i) \<and> expires_at i < now \<longrightarrow>
      (accepted_at i = None \<longrightarrow>
         fetchInvitation invitationData now get_project =
           \<lparr>invitation = None, project = None, error = ''This invitation has expired''\<rparr>)
      \<and> open_and_accept post invitationData now get_project user srv = (srv, Not_offered))
   \<and> (find (\<lambda>j. inv_id j = inv_id i) (invitations store) = None \<and> email u = invited_email i
        \<longrightarrow> handleAccept (acceptInvitation now) (Some u) (Some i) store
             = (store, Failed (detail NotFound)))
   \<and> (find (\<lambda>j. inv_id j = inv_id i) (invitations store) = Some j \<and> accepted_at j \<noteq> None
        \<and> email u = invited_email i
        \<longrightarrow> handleAccept (acceptInvitation now) (Some u) (Some i) store
             = (store, Failed (detail Gone)))
   \<and> (find (\<lambda>j. inv_id j = inv_id i) (invitations store) = Some j \<and> accepted_at j = None
        \<and> expires_at j < now \<and> email u = invited_email i
        \<longrightarrow> handleAccept (acceptInvitation now) (Some u) (Some i) store
             = (store, Failed (detail Expired)))
   \<and> (open_and_accept (acceptInvitation now) (invitation_by_token store token) now
          get_project (Some u) store = (store', Joined)
        \<longrightarrow> open_and_accept (acceptInvitation now') (invitation_by_token store' token) now'
             get_project' user' store' = (store', Not_offered))"
proof (intro conjI impI, goal_cases)
  case 1 then show ?case by (simp add: fetchInvitation_def)
next
  case 2 then show ?case
    by (auto simp: open_and_accept_def press_accept_def fetchInvitation_def
        accept_disabled_def split: option.splits)
next
  case 3 then show ?case by (simp add: fetchInvitation_def)
next
  case 4 then show ?case
    by (auto simp: open_and_accept_def press_accept_def fetchInvitation_def
        accept_disabled_def split: option.splits)
next
  case 5 then show ?case by (auto simp: fetchInvitation_def)
next
  case 6 then show ?case
    by (auto simp: open_and_accept_def press_accept_def fetchInvitation_def
        accept_disabled_def split: option.splits)
next
  case 7 then show ?case by (auto simp: fetchInvitation_def)
next
  case 8 then show ?case
    by (auto simp: open_and_accept_def press_accept_def fetchInvitation_def
        accept_disabled_def split: option.splits)
next
  case 9 then show ?case
    by (simp add: acceptInvitation_rejects(1) handleAccept_passes_rejection)
next
  case 10 then show ?case
    by (simp add: acceptInvitation_rejects(2) handleAccept_passes_rejection)
next
  case 11 then show ?case
    by (simp add: acceptInvitation_rejects(3) handleAccept_passes_rejection)
next
  case 12 then show ?case by (rule second_acceptance_changes_nothing)
qed

lemma by_token_samples:
  "invitation_by_token launch_store ''tok-1'' = Resolved (Some bob_invitation)"
  "invitation_by_token launch_store ''tok-9'' = Resolved None"
  by (simp_all add: invitation_by_token_def launch_store_def bob_invitation_def)

lemma bob_joins_once:
  "open_and_accept (acceptInvitation 1000) (invitation_by_token launch_store ''tok-1'') 1000
     get_launch (Some bob) launch_store =
   (\<lparr>members =
       [\<lparr>member_project = ''p1'', member_user = ''u1'', member_role = Owner\<rparr>,
        \<lparr>member_project = ''p1'', member_user = ''u2'', member_role = Editor\<rparr>],
     invitations = [bob_invitation\<lparr>accepted_at := Some 1000\<rparr>]\<rparr>, Joined)"
proof -
  have page: "fetchInvitation (invitation_by_token launch_store ''tok-1'') 1000 get_launch =
      \<lparr>invitation = Some bob_invitation, project = Some launch, error = ''''\<rparr>"
    by (simp add: fetchInvitation_def by_token_samples)
       (simp add: bob_invitation_def get_launch_def)
  have same: "email bob = invited_email bob_invitation" "inv_id bob_invitation = ''i1''"
    by (simp_all add: bob_def bob_invitation_def)
  have sent: "acceptInvitation 1000 launch_store bob ''i1'' =
    (\<lparr>members =
       [\<lparr>member_project = ''p1'', member_user = ''u1'', member_role = Owner\<rparr>,
        \<lparr>member_project = ''p1'', member_user = ''u2'', member_role = Editor\<rparr>],
     invitations = [bob_invitation\<lparr>accepted_at := Some 1000\<rparr>]\<rparr>, Resolved ())"
    by (simp add: acceptInvitation_def launch_store_def bob_invitation_def bob_def)
  show ?thesis
    by (simp add: open_and_accept_def press_accept_def page accept_disabled_def
        handleAccept_def same sent)
qed

theorem open_and_accept_fails_witness:
  "expires_at bob_invitation = inv_created_at bob_invitation + 7 * 86400000
   \<and> open_and_accept (acceptInvitation (8 * 86400000))
        (invitation_by_token launch_store ''tok-1'') (8 * 86400000) get_launch (Some bob)
        launch_store = (launch_store, Not_offered)
   \<and> error (fetchInvitation (invitation_by_token launch_store ''tok-1'') (8 * 86400000)
        get_launch) = ''This invitation has expired''
   \<and> handleAccept (acceptInvitation (8 * 86400000)) (Some bob) (Some bob_invitation)
        launch_store = (launch_store, Failed ''Expired'')
   \<and> handleAccept (acceptInvitation 2000) (Some bob) (Some bob_invitation)
        \<lparr>members = [], invitations = [bob_invitation\<lparr>accepted_at := Some 1000\<rparr>]\<rparr>
        = (\<lparr>members = [], invitations = [bob_invitation\<lparr>accepted_at := Some 1000\<rparr>]\<rparr>,
           Failed ''Gone'')
   \<and> handleAccept (acceptInvitation 1000) (Some bob) (Some bob_invitation)
        \<lparr>members = [], invitations = []\<rparr>
        = (\<lparr>members = [], invitations = []\<rparr>, Failed ''NotFound'')
   \<and> open_and_accept (acceptInvitation 1000)
        (invitation_by_token launch_store ''tok-9'') 1000 get_launch (Some bob)
        launch_store = (launch_store, Not_offered)
   \<and> open_and_accept (acceptInvitation 2000)
        (Resolved (Some (bob_invitation\<lparr>accepted_at := Some 1000\<rparr>))) 2000 get_launch
        (Some bob) launch_store = (launch_store, Not_offered)
   \<and> open_and_accept (acceptInvitation 1000) (Rejected ''NotFound'') 1000 get_launch
        (Some bob) launch_store = (launch_store, Not_offered)
   \<and> (\<exists>joined. open_and_accept (acceptInvitation 1000)
          (invitation_by_token launch_store ''tok-1'') 1000 get_launch (Some bob) launch_store
          = (joined, Joined)
        \<and> open_and_accept (acceptInvitation 2000) (invitation_by_token joined ''tok-1'') 2000
          get_launch (Some bob) joined = (joined, Not_offered))"
proof -
  let ?late = "8 * 86400000 :: int"
  let ?marked = "bob_invitation\<lparr>accepted_at := Some 1000\<rparr>"
  let ?gone = "\<lparr>members = [], invitations = [?marked]\<rparr>"
  let ?empty = "\<lparr>members = [], invitations = []\<rparr> :: team_store"
  have week: "expires_at bob_invitation = inv_created_at bob_invitation + 7 * 86400000"
    by (simp add: bob_invitation_def)
  have late: "expires_at bob_invitation < ?late"
    and fresh: "accepted_at bob_invitation = None"
    and same: "email bob = invited_email bob_invitation"
    by (simp_all add: bob_invitation_def bob_def)
  have known: "find (\<lambda>j. inv_id j = inv_id bob_invitation) (invitations launch_store)
       = Some bob_invitation"
    by (simp add: launch_store_def)
  have marked: "find (\<lambda>j. inv_id j = inv_id bob_invitation) (invitations ?gone) = Some ?marked"
    "accepted_at ?marked \<noteq> None"
    by simp_all
  have unknown: "find (\<lambda>j. inv_id j = inv_id bob_invitation) (invitations ?empty) = None"
    by simp
  have details: "detail Expired = ''Expired''" "detail Gone = ''Gone''"
    "detail NotFound = ''NotFound''"
    by (simp_all add: detail_def)
  note expired_page = open_and_accept_fails
    [where invitationData = "invitation_by_token launch_store ''tok-1''"
      and i = bob_invitation and now = ?late and get_project = get_launch
      and post = "acceptInvitation ?late" and user = "Some bob" and srv = launch_store,
      THEN conjunct2, THEN conjunct2, THEN conjunct2, THEN conjunct1, rule_format]
  have a: "open_and_accept (acceptInvitation ?late)
        (invitation_by_token launch_store ''tok-1'') ?late get_launch (Some bob)
        launch_store = (launch_store, Not_offered)"
    and b: "fetchInvitation (invitation_by_token launch_store ''tok-1'') ?late get_launch
        = \<lparr>invitation = None, project = None, error = ''This invitation has expired''\<rparr>"
    using expired_page [OF conjI [OF by_token_samples(1) late]] fresh by blast+
  have c: "handleAccept (acceptInvitation ?late) (Some bob) (Some bob_invitation)
        launch_store = (launch_store, Failed (detail Expired))"
    by (rule open_and_accept_fails
        [where i = bob_invitation and store = launch_store and u = bob
          and j = bob_invitation and now = ?late,
          THEN conjunct2, THEN conjunct2, THEN conjunct2, THEN conjunct2,
          THEN conjunct2, THEN conjunct2, THEN conjunct1, rule_format])
       (intro conjI known fresh late same)
  have d: "handleAccept (acceptInvitation 2000) (Some bob) (Some bob_invitation) ?gone
        = (?gone, Failed (detail Gone))"
    by (rule open_and_accept_fails
        [where i = bob_invitation and store = ?gone and u = bob and j = ?marked
          and now = 2000,
          THEN conjunct2, THEN conjunct2, THEN conjunct2, THEN conjunct2,
          THEN conjunct2, THEN conjunct1, rule_format])
       (intro conjI marked same)
  have e: "handleAccept (acceptInvitation 1000) (Some bob) (Some bob_invitation) ?empty
        = (?empty, Failed (detail NotFound))"
    by (rule open_and_accept_fails
        [where i = bob_invitation and store = ?empty and u = bob and now = 1000,
          THEN conjunct2, THEN conjunct2, THEN conjunct2, THEN conjunct2,
          THEN conjunct1, rule_format])
       (intro conjI unknown same)
  have f: "open_and_accept (acceptInvitation 1000)
        (invitation_by_token launch_store ''tok-9'') 1000 get_launch (Some bob)
        launch_store = (launch_store, Not_offered)"
    using open_and_accept_fails
      [where invitationData = "invitation_by_token launch_store ''tok-9''"
        and now = 1000 and get_project = get_launch
        and post = "acceptInvitation 1000" and user = "Some bob" and srv = launch_store,
        THEN conjunct1, rule_format, OF by_token_samples(2)]
    by (rule conjunct2)
  have g: "open_and_accept (acceptInvitation 2000) (Resolved (Some ?marked)) 2000 get_launch
        (Some bob) launch_store = (launch_store, Not_offered)"
    using open_and_accept_fails
      [where invitationData = "Resolved (Some ?marked)" and i = ?marked
        and now = 2000 and get_project = get_launch
        and post = "acceptInvitation 2000" and user = "Some bob" and srv = launch_store,
        THEN conjunct2, THEN conjunct2, THEN conjunct1, rule_format,
        OF conjI [OF refl marked(2)]]
    by (rule conjunct2)
  have h: "open_and_accept (acceptInvitation 1000) (Rejected ''NotFound'') 1000
        get_launch (Some bob) launch_store = (launch_store, Not_offered)"
    using open_and_accept_fails
      [where invitationData = "Rejected ''NotFound''" and message = "''NotFound''"
        and now = 1000 and get_project = get_launch
        and post = "acceptInvitation 1000" and user = "Some bob" and srv = launch_store,
        THEN conjunct2, THEN conjunct1, rule_format, OF refl]
    by (rule conjunct2)
  have k: "\<exists>joined. open_and_accept (acceptInvitation 1000)
          (invitation_by_token launch_store ''tok-1'') 1000 get_launch (Some bob) launch_store
          = (joined, Joined)
        \<and> open_and_accept (acceptInvitation 2000) (invitation_by_token joined ''tok-1'') 2000
          get_launch (Some bob) joined = (joined, Not_offered)"
    by (intro exI conjI, rule bob_joins_once,
        rule open_and_accept_fails
          [where store = launch_store and token = "''tok-1''" and now = 1000
            and get_project = get_launch and u = bob,
            THEN conjunct2, THEN conjunct2, THEN conjunct2, THEN conjunct2,
            THEN conjunct2, THEN conjunct2, THEN conjunct2, rule_format],
        rule bob_joins_once)
  from b have b': "error (fetchInvitation (invitation_by_token launch_store ''tok-1'') ?late
        get_launch) = ''This invitation has expired''"
    by simp
  show ?thesis
    by (intro conjI week a b' c [unfolded details] d [unfolded details]
        e [unfolded details] f g h k)
qed

section \<open>Managing the team\<close>

text \<open>
  The handlers of the team page decide nothing: whatever the server is, its state after
  a handler is the state the request leaves, and the page shows an error exactly when
  the server rejected the request.
\<close>

lemma handleRemoveMember_forwards:
  "fst (handleRemoveMember delete pid u srv) = fst (delete srv pid u)"
  "snd (handleRemoveMember delete pid u srv) = Toast_error message
     \<longleftrightarrow> snd (delete srv pid u) = Rejected message"
  by (auto simp: handleRemoveMember_def split: prod.splits response.splits)

lemma handleChangeRole_forwards:
  "fst (handleChangeRole put pid u r srv) = fst (put srv pid u r)"
  "snd (handleChangeRole put pid u r srv) = Toast_error message
     \<longleftrightarrow> snd (put srv pid u r) = Rejected message"
  by (auto simp: handleChangeRole_def split: prod.splits response.splits)

text \<open>
  The cards of the team page do guard the owners: an item of a member's menu can be
  chosen only when that member is not an owner (and the current user is an owner and is
  not that member).
\<close>

lemma menu_never_targets_owner:
  "item \<in> set (menu member isCurrentUser currentUserRole) \<Longrightarrow>
     \<not> isOwner member \<and> currentUserRole = Owner \<and> \<not> isCurrentUser"
  by (auto simp: menu_def canManage_def split: if_splits)

lemma sample_menus:
  "menu alice_card False Owner = []"
  "menu bob_card False Owner = [Change_to Owner, Change_to Editor, Change_to Viewer, Remove_Member]"
  by (simp_all add: menu_def canManage_def isOwner_def alice_card_def bob_card_def)

text \<open>
  The server as the spec describes the source never answers Conflict, and it removes a
  member who is the last owner of a project.
\<close>

lemma removeMember_of_last_owner:
  "last_owner ms pid u \<Longrightarrow>
     snd (removeMember ms pid u) = Resolved () \<and> \<not> has_owner (fst (removeMember ms pid u)) pid"
  by (auto simp: removeMember_def last_owner_def is_member_def has_owner_def)


end
